theory Spec2Isabelle
  imports Complex_Main "HOL-Library.Sublist"
begin

section \<open>Values, errors and the library functions used by dex2nc.py\<close>

text \<open>
  The conversion \<open>dex2ds\<close> of \<open>dex2nc.py\<close> reads a whitespace-delimited table of twelve
  columns, rewrites some string columns, derives a flag column, converts the ten egg-code
  columns to numbers and reshapes the rows into a longitude by latitude grid.

  An uncaught Python exception is a value \<open>Inl e\<close> of the result type \<open>py_error + 'a\<close>.
\<close>

datatype py_error = KeyError | IndexError | ValueError | FileNotFoundError

definition bind_err :: "py_error + 'a \<Rightarrow> ('a \<Rightarrow> py_error + 'b) \<Rightarrow> py_error + 'b" where
  "bind_err m f = (case m of Inl e \<Rightarrow> Inl e | Inr x \<Rightarrow> f x)"

text \<open>\<open>Series.apply\<close> with a function that may raise: the first exception ends the call.\<close>

fun apply_err :: "('a \<Rightarrow> py_error + 'b) \<Rightarrow> 'a list \<Rightarrow> py_error + 'b list" where
  "apply_err f [] = Inr []"
| "apply_err f (x # xs) =
     (case f x of
        Inl e \<Rightarrow> Inl e
      | Inr y \<Rightarrow> (case apply_err f xs of Inl e \<Rightarrow> Inl e | Inr ys \<Rightarrow> Inr (y # ys)))"

text \<open>
  A cell of the data frame is a Python \<open>str\<close>, a finite float or the float \<open>nan\<close>. Finite
  floats are modelled by the rational number that their decimal notation denotes: rounding
  to binary floating point is not part of the model. A \<open>float64\<close> array element is a
  number or \<open>nan\<close> (\<open>None\<close>).
\<close>

datatype cell = Str string | Num rat | NaN

type_synonym float64 = "rat option"

subsection \<open>Decimal notation\<close>

definition is_digit :: "char \<Rightarrow> bool" where
  "is_digit c = (48 \<le> (of_char c :: nat) \<and> (of_char c :: nat) \<le> 57)"

definition digit_val :: "char \<Rightarrow> nat" where
  "digit_val c = of_char c - 48"

definition nat_of_digits :: "string \<Rightarrow> nat" where
  "nat_of_digits s = foldl (\<lambda>n c. 10 * n + digit_val c) 0 s"

text \<open>
  The float parser of the reader and of \<open>pd.to_numeric\<close>, for the notation that occurs in
  \<open>.dex\<close> files: an optional sign, digits, and an optional decimal point followed by
  digits, with at least one digit in all (\<open>4\<close>, \<open>4.\<close>, \<open>9.9\<close>, \<open>.5\<close>). Every other
  string is not a number here; exponents and the spellings of infinity are outside the
  model.
\<close>

definition parse_unsigned :: "string \<Rightarrow> rat option" where
  "parse_unsigned s =
     (let ip = takeWhile is_digit s; r = dropWhile is_digit s in
      if r = [] then (if ip = [] then None else Some (of_nat (nat_of_digits ip)))
      else if hd r = CHR ''.'' \<and> list_all is_digit (tl r) \<and> (ip \<noteq> [] \<or> tl r \<noteq> [])
      then Some (of_nat (nat_of_digits (ip @ tl r)) / 10 ^ length (tl r))
      else None)"

definition to_float :: "string \<Rightarrow> rat option" where
  "to_float s =
     (if s = [] then None
      else if hd s = CHR ''-'' then map_option uminus (parse_unsigned (tl s))
      else if hd s = CHR ''+'' then parse_unsigned (tl s)
      else parse_unsigned s)"

subsection \<open>\<open>str.replace\<close>\<close>

text \<open>
  Python's \<open>s.replace(old, new)\<close>: the occurrences of \<open>old\<close> are found from left to right
  without overlap and each is replaced by \<open>new\<close>. With an empty \<open>old\<close>, \<open>new\<close> is put
  before every character and at the end.
\<close>

function replace_from :: "string \<Rightarrow> string \<Rightarrow> string \<Rightarrow> string" where
  "replace_from old new [] = []"
| "replace_from old new (c # cs) =
     (if old \<noteq> [] \<and> prefix old (c # cs)
      then new @ replace_from old new (drop (length old) (c # cs))
      else c # replace_from old new cs)"
  by pat_completeness auto
termination
  by (relation "measure (\<lambda>(old, new, s). length s)") auto

definition str_replace :: "string \<Rightarrow> string \<Rightarrow> string \<Rightarrow> string" where
  "str_replace old new s =
     (if old = [] then new @ concat (map (\<lambda>c. c # new) s) else replace_from old new s)"

section \<open>The helper functions of \<open>dex2ds\<close>\<close>

text \<open>\<open>_strip_plus\<close>: in a string, \<open>9+\<close> becomes \<open>9.9\<close>; any other value is returned as it is.\<close>

definition strip_plus :: "cell \<Rightarrow> cell" where
  "strip_plus x = (case x of Str s \<Rightarrow> Str (str_replace ''9+'' ''9.9'' s) | _ \<Rightarrow> x)"

text \<open>\<open>_strip_dots\<close>: in a string, every \<open>.\<close> becomes \<open>0\<close>.\<close>

definition strip_dots :: "cell \<Rightarrow> cell" where
  "strip_dots x = (case x of Str s \<Rightarrow> Str (str_replace ''.'' ''0'' s) | _ \<Rightarrow> x)"

text \<open>\<open>_num_flags\<close>: the dictionary \<open>conv\<close> and the lookup \<open>conv[x]\<close>, which raises
  \<open>KeyError\<close> on a key that is not in the dictionary. All keys are strings, so no float is a
  key.\<close>

definition conv :: "(string \<times> int) list" where
  "conv =
     [(''IF'', 1), (''missing'', 2), (''Fast-ice'', 3),
      (''1'', 0), (''2'', 0), (''3'', 0), (''4'', 0), (''5'', 0), (''6'', 0),
      (''7'', 0), (''8'', 0), (''9'', 0), (''9+'', 0), (''9.9'', 0), (''10'', 0)]"

definition num_flags :: "cell \<Rightarrow> py_error + int" where
  "num_flags x =
     (case x of
        Str s \<Rightarrow> (case map_of conv s of None \<Rightarrow> Inl KeyError | Some v \<Rightarrow> Inr v)
      | _ \<Rightarrow> Inl KeyError)"

text \<open>
  The codes as the specification lists them, to compare with the keys of \<open>conv\<close>: the
  words \<open>IF\<close>, \<open>missing\<close> and \<open>Fast-ice\<close>, and the concentrations \<open>1\<close> to \<open>9\<close>,
  \<open>9+\<close>, \<open>9.9\<close> and \<open>10\<close>; and the flag that the specification gives to each.
\<close>

definition spec_ice_codes :: "string list" where
  "spec_ice_codes = map (\<lambda>d. [d]) ''123456789'' @ [''9+'', ''9.9'', ''10'']"

definition spec_flag_codes :: "string list" where
  "spec_flag_codes = [''IF'', ''missing'', ''Fast-ice''] @ spec_ice_codes"

definition spec_flag :: "string \<Rightarrow> int" where
  "spec_flag s =
     (if s = ''IF'' then 1 else if s = ''missing'' then 2 else if s = ''Fast-ice'' then 3 else 0)"

section \<open>Reading the file\<close>

text \<open>
  One record type serves the table and the dataset, as the column names do in the source:
  \<open>'c\<close> is the type of the coordinates \<open>lon\<close> and \<open>lat\<close> and \<open>'a\<close> the type of the ten
  egg-code columns. A row of the file has numeric coordinates and ten tokens; the rows of
  the data frame hold cells; the dataset holds coordinate lists and arrays.
\<close>

record ('a, 'c) dex =
  lon :: 'c
  lat :: 'c
  CT :: 'a
  CA :: 'a
  SA :: 'a
  FA :: 'a
  CB :: 'a
  SB :: 'a
  FB :: 'a
  CC :: 'a
  SC :: 'a
  FC :: 'a

record ('a, 'c, 'f) dex_flag = "('a, 'c) dex" +
  flag :: 'f

record date =
  year :: nat
  month :: nat
  day :: nat

record ('a, 'c, 'f) xr_dataset = "('a, 'c, 'f) dex_flag" +
  time :: "date list"

type_synonym dex_line = "(string, rat) dex"
type_synonym df_row = "(cell, rat) dex"
type_synonym df_flag_row = "(cell, rat, int) dex_flag"
type_synonym num_row = "(float64, rat, int) dex_flag"
type_synonym grid_dataset = "(float64 list list, rat list, int option list list) dex_flag"
type_synonym dataset = "(float64 list list list, rat list, int option list list list) xr_dataset"

text \<open>The line \<open>x y ct ca sa fa cb sb fb cc sc fc\<close> of a file.\<close>

type_synonym token = string

definition line ::
  "rat \<Rightarrow> rat \<Rightarrow> token \<Rightarrow> token \<Rightarrow> token \<Rightarrow> token \<Rightarrow> token \<Rightarrow> token \<Rightarrow> token
     \<Rightarrow> token \<Rightarrow> token \<Rightarrow> token \<Rightarrow> dex_line" where
  "line x y ct ca sa fa cb sb fb cc sc fc =
     \<lparr>lon = x, lat = y, CT = ct, CA = ca, SA = sa, FA = fa, CB = cb, SB = sb, FB = fb,
      CC = cc, SC = sc, FC = fc\<rparr>"

datatype dtype = float | str

definition col_names :: "string list" where
  "col_names = [''lon'', ''lat'', ''CT'', ''CA'', ''SA'', ''FA'', ''CB'', ''SB'', ''FB'',
                ''CC'', ''SC'', ''FC'']"

definition col_types :: "dtype list" where
  "col_types = [float, float, str, str, str, str, str, str, str, float, float, float]"

definition types :: "(string \<times> dtype) list" where
  "types = zip col_names col_types"

text \<open>
  The strings that the reader takes for a missing value: \<open>X\<close>, from \<open>na_values='X'\<close>,
  and the defaults of pandas, which stay in force.
\<close>

definition na_values :: "string list" where
  "na_values =
     [''X'', '''', ''#N/A'', ''#N/A N/A'', ''#NA'', ''-1.#IND'', ''-1.#QNAN'', ''-NaN'',
      ''-nan'', ''1.#IND'', ''1.#QNAN'', ''<NA>'', ''N/A'', ''NA'', ''NULL'', ''NaN'',
      ''None'', ''n/a'', ''nan'', ''null'']"

text \<open>
  A token read with a declared type. In a \<open>str\<close> column a token stays the string it is;
  in a \<open>float\<close> column it must parse as a float, else the reader raises \<open>ValueError\<close>. A
  missing value is \<open>nan\<close> in both.
\<close>

definition read_as :: "dtype \<Rightarrow> string \<Rightarrow> py_error + cell" where
  "read_as t tok =
     (if tok \<in> set na_values then Inr NaN
      else case t of
        str \<Rightarrow> Inr (Str tok)
      | float \<Rightarrow> (case to_float tok of None \<Rightarrow> Inl ValueError | Some r \<Rightarrow> Inr (Num r)))"

text \<open>The column \<open>name\<close> is read with the type that \<open>types\<close> gives it; every column name
  has one.\<close>

definition read_col :: "string \<Rightarrow> string \<Rightarrow> py_error + cell" where
  "read_col name tok =
     (case map_of types name of None \<Rightarrow> Inl KeyError | Some t \<Rightarrow> read_as t tok)"

definition read_line :: "dex_line \<Rightarrow> py_error + df_row" where
  "read_line r =
     bind_err (read_col ''CT'' (CT r)) (\<lambda>ct.
     bind_err (read_col ''CA'' (CA r)) (\<lambda>ca.
     bind_err (read_col ''SA'' (SA r)) (\<lambda>sa.
     bind_err (read_col ''FA'' (FA r)) (\<lambda>fa.
     bind_err (read_col ''CB'' (CB r)) (\<lambda>cb.
     bind_err (read_col ''SB'' (SB r)) (\<lambda>sb.
     bind_err (read_col ''FB'' (FB r)) (\<lambda>fb.
     bind_err (read_col ''CC'' (CC r)) (\<lambda>cc.
     bind_err (read_col ''SC'' (SC r)) (\<lambda>sc.
     bind_err (read_col ''FC'' (FC r)) (\<lambda>fc.
       Inr \<lparr>lon = lon r, lat = lat r, CT = ct, CA = ca, SA = sa, FA = fa,
            CB = cb, SB = sb, FB = fb, CC = cc, SC = sc, FC = fc\<rparr>))))))))))"

definition read_csv :: "dex_line list \<Rightarrow> py_error + df_row list" where
  "read_csv rows = apply_err read_line rows"

section \<open>The conversion \<open>dex2ds\<close>\<close>

text \<open>The two substitution loops: \<open>_strip_plus\<close> on \<open>CT\<close> and \<open>CA\<close>, then \<open>_strip_dots\<close>
  on \<open>SA\<close>, \<open>SB\<close> and \<open>SC\<close>.\<close>

definition plus_columns :: "df_row \<Rightarrow> df_row" where
  "plus_columns r = r\<lparr>CT := strip_plus (CT r), CA := strip_plus (CA r)\<rparr>"

definition dots_columns :: "df_row \<Rightarrow> df_row" where
  "dots_columns r =
     r\<lparr>SA := strip_dots (SA r), SB := strip_dots (SB r), SC := strip_dots (SC r)\<rparr>"

text \<open>\<open>df['flag'] = df.CT.apply(_num_flags)\<close>, row by row.\<close>

definition flag_column :: "df_row \<Rightarrow> py_error + df_flag_row" where
  "flag_column r =
     bind_err (num_flags (CT r)) (\<lambda>f.
       Inr \<lparr>lon = lon r, lat = lat r, CT = CT r, CA = CA r, SA = SA r, FA = FA r,
            CB = CB r, SB = SB r, FB = FB r, CC = CC r, SC = SC r, FC = FC r, flag = f\<rparr>)"

text \<open>
  \<open>pd.to_numeric(x, errors=...)\<close> on one cell. A number stays, \<open>nan\<close> stays, a string is
  parsed; a string that does not parse raises with \<open>errors='raise'\<close> and becomes \<open>nan\<close>
  with \<open>errors='coerce'\<close>, which is what the source passes.
\<close>

datatype errors_arg = errors_raise | errors_coerce

definition to_numeric :: "errors_arg \<Rightarrow> cell \<Rightarrow> py_error + float64" where
  "to_numeric errors x =
     (case x of
        Num r \<Rightarrow> Inr (Some r)
      | NaN \<Rightarrow> Inr None
      | Str s \<Rightarrow>
          (case to_float s of
             Some r \<Rightarrow> Inr (Some r)
           | None \<Rightarrow> (case errors of errors_raise \<Rightarrow> Inl ValueError
                                   | errors_coerce \<Rightarrow> Inr None)))"

text \<open>The loop over \<open>col_names[2:]\<close>, the ten egg-code columns.\<close>

definition numeric_columns :: "df_flag_row \<Rightarrow> py_error + num_row" where
  "numeric_columns r =
     bind_err (to_numeric errors_coerce (CT r)) (\<lambda>ct.
     bind_err (to_numeric errors_coerce (CA r)) (\<lambda>ca.
     bind_err (to_numeric errors_coerce (SA r)) (\<lambda>sa.
     bind_err (to_numeric errors_coerce (FA r)) (\<lambda>fa.
     bind_err (to_numeric errors_coerce (CB r)) (\<lambda>cb.
     bind_err (to_numeric errors_coerce (SB r)) (\<lambda>sb.
     bind_err (to_numeric errors_coerce (FB r)) (\<lambda>fb.
     bind_err (to_numeric errors_coerce (CC r)) (\<lambda>cc.
     bind_err (to_numeric errors_coerce (SC r)) (\<lambda>sc.
     bind_err (to_numeric errors_coerce (FC r)) (\<lambda>fc.
       Inr \<lparr>lon = lon r, lat = lat r, CT = ct, CA = ca, SA = sa, FA = fa,
            CB = cb, SB = sb, FB = fb, CC = cc, SC = sc, FC = fc, flag = flag r\<rparr>))))))))))"

subsection \<open>From the table to the grid\<close>

text \<open>
  \<open>df.to_xarray()\<close>: the table is indexed by \<open>(lon, lat)\<close>. The coordinates of the dataset
  are the sorted distinct longitudes and the sorted distinct latitudes; every variable is an
  array over their product, holding the value of the row at that point and \<open>nan\<close> where the
  table has no row. A table with two rows at one point is refused with \<open>ValueError\<close>.
\<close>

definition reindex ::
  "num_row list \<Rightarrow> rat list \<Rightarrow> rat list \<Rightarrow> (num_row \<Rightarrow> 'v option) \<Rightarrow> 'v option list list" where
  "reindex df lons lats col =
     map (\<lambda>x. map (\<lambda>y. case find (\<lambda>r. lon r = x \<and> lat r = y) df of
                          None \<Rightarrow> None
                        | Some r \<Rightarrow> col r) lats) lons"

definition to_xarray :: "num_row list \<Rightarrow> py_error + grid_dataset" where
  "to_xarray df =
     (if \<not> distinct (map (\<lambda>r. (lon r, lat r)) df) then Inl ValueError
      else
        let lons = sort (remdups (map lon df));
            lats = sort (remdups (map lat df));
            var = reindex df lons lats
        in Inr \<lparr>lon = lons, lat = lats,
                CT = var CT, CA = var CA, SA = var SA, FA = var FA,
                CB = var CB, SB = var SB, FB = var FB,
                CC = var CC, SC = var SC, FC = var FC,
                flag = reindex df lons lats (\<lambda>r. Some (flag r))\<rparr>)"

text \<open>\<open>a.where(cond, other)\<close> keeps an element where the condition holds and puts
  \<open>other\<close> elsewhere.\<close>

definition isnull :: "'v option \<Rightarrow> bool" where
  "isnull v = (v = None)"

definition where_else :: "('v \<Rightarrow> bool) \<Rightarrow> 'v \<Rightarrow> 'v list list \<Rightarrow> 'v list list" where
  "where_else cond other a = map (map (\<lambda>v. if cond v then v else other)) a"

subsection \<open>The date in the file name\<close>

text \<open>\<open>re.findall('[0-9]{8}', s)\<close>: the matches from left to right, without overlap.\<close>

definition digits8 :: "string \<Rightarrow> bool" where
  "digits8 s = (8 \<le> length s \<and> list_all is_digit (take 8 s))"

function findall_digits8 :: "string \<Rightarrow> string list" where
  "findall_digits8 [] = []"
| "findall_digits8 (c # cs) =
     (if digits8 (c # cs) then take 8 (c # cs) # findall_digits8 (drop 8 (c # cs))
      else findall_digits8 cs)"
  by pat_completeness auto
termination
  by (relation "measure length") auto

text \<open>\<open>xs[0]\<close> raises \<open>IndexError\<close> on the empty list.\<close>

definition item0 :: "'a list \<Rightarrow> py_error + 'a" where
  "item0 xs = (case xs of [] \<Rightarrow> Inl IndexError | x # _ \<Rightarrow> Inr x)"

definition leap_year :: "nat \<Rightarrow> bool" where
  "leap_year y = (y mod 4 = 0 \<and> (y mod 100 \<noteq> 0 \<or> y mod 400 = 0))"

definition days_in_month :: "nat \<Rightarrow> nat \<Rightarrow> nat" where
  "days_in_month y m =
     (if m = 2 then (if leap_year y then 29 else 28)
      else if m = 4 \<or> m = 6 \<or> m = 9 \<or> m = 11 then 30 else 31)"

text \<open>
  \<open>pd.Timestamp\<close> on a string of the shape \<open>YYYY-MM-DD\<close>, the only shape the source builds:
  the calendar date if there is such a day, \<open>ValueError\<close> otherwise. The limits of the
  years that a timestamp can hold are not part of the model.
\<close>

definition Timestamp :: "string \<Rightarrow> py_error + date" where
  "Timestamp s =
     (if length s = 10 \<and> list_all is_digit (take 4 s) \<and> s ! 4 = CHR ''-''
         \<and> list_all is_digit (take 2 (drop 5 s)) \<and> s ! 7 = CHR ''-''
         \<and> list_all is_digit (drop 8 s)
      then
        let y = nat_of_digits (take 4 s);
            m = nat_of_digits (take 2 (drop 5 s));
            d = nat_of_digits (drop 8 s)
        in if 1 \<le> y \<and> 1 \<le> m \<and> m \<le> 12 \<and> 1 \<le> d \<and> d \<le> days_in_month y m
           then Inr \<lparr>year = y, month = m, day = d\<rparr>
           else Inl ValueError
      else Inl ValueError)"

definition file_date :: "string \<Rightarrow> py_error + date" where
  "file_date file =
     bind_err (item0 (findall_digits8 file)) (\<lambda>date_str.
       Timestamp (take 4 date_str @ ''-'' @ take 2 (drop 4 date_str) @ ''-'' @ drop 6 date_str))"

text \<open>\<open>dataset.expand_dims({'time': [date]})\<close>: every variable gets a leading dimension
  of length one.\<close>

definition expand_dims :: "grid_dataset \<Rightarrow> date \<Rightarrow> dataset" where
  "expand_dims g d =
     \<lparr>lon = lon g, lat = lat g,
      CT = [CT g], CA = [CA g], SA = [SA g], FA = [FA g],
      CB = [CB g], SB = [SB g], FB = [FB g],
      CC = [CC g], SC = [SC g], FC = [FC g],
      flag = [flag g], time = [d]\<rparr>"

text \<open>
  \<open>dex2ds\<close>. The argument \<open>rows\<close> is the content of the file named \<open>file\<close>, one record per
  line: the splitting of the text into twelve fields and the parsing of the two
  coordinates, which are numbers in every line, are taken as done. The attributes that
  the source attaches to the dataset afterwards are not modelled.
\<close>

definition dex2ds :: "string \<Rightarrow> dex_line list \<Rightarrow> py_error + dataset" where
  "dex2ds file rows =
     bind_err (read_csv rows) (\<lambda>df.
     bind_err (apply_err flag_column (map dots_columns (map plus_columns df))) (\<lambda>df.
     bind_err (apply_err numeric_columns df) (\<lambda>df.
     bind_err (to_xarray df) (\<lambda>dataset.
     bind_err (file_date file) (\<lambda>date.
       Inr (expand_dims
              (dataset\<lparr>flag := where_else (\<lambda>v. \<not> isnull v) (Some 4) (flag dataset)\<rparr>)
              date))))))"

text \<open>What the steps before the reshaping do to one line of the file: reading, the two
  substitutions, the flag and the numeric conversion.\<close>

definition convert_line :: "dex_line \<Rightarrow> py_error + num_row" where
  "convert_line r =
     bind_err (read_line r) (\<lambda>r.
     bind_err (flag_column (dots_columns (plus_columns r))) numeric_columns)"

section \<open>The command line\<close>








section \<open>Sequencing of the steps\<close>

lemma apply_err_Inr_iff:
  "apply_err f xs = Inr ys \<longleftrightarrow> list_all2 (\<lambda>x y. f x = Inr y) xs ys"
proof (induction xs arbitrary: ys)
  case Nil
  show ?case by auto
next
  case (Cons x xs)
  show ?case
  proof (cases "f x")
    case (Inl e)
    then show ?thesis by (auto simp: list_all2_Cons1)
  next
    case fx: (Inr y)
    show ?thesis
    proof (cases "apply_err f xs")
      case (Inl e)
      then have "\<not> list_all2 (\<lambda>x y. f x = Inr y) xs zs" for zs
        using Cons.IH [of zs] by simp
      with Inl fx show ?thesis by (auto simp: list_all2_Cons1)
    next
      case (Inr zs)
      then have "list_all2 (\<lambda>x y. f x = Inr y) xs zs' \<longleftrightarrow> zs' = zs" for zs'
        using Cons.IH [of zs'] by auto
      with Inr fx show ?thesis by (auto simp: list_all2_Cons1)
    qed
  qed
qed

lemma apply_err_Inl:
  "apply_err f xs = Inl e \<Longrightarrow> \<exists>x \<in> set xs. f x = Inl e"
  by (induction xs) (auto split: sum.splits)

lemma apply_err_fails:
  "x \<in> set xs \<Longrightarrow> f x = Inl e \<Longrightarrow> \<exists>e'. apply_err f xs = Inl e'"
  by (induction xs) (auto split: sum.splits)

lemma bind_err_Inr_iff:
  "bind_err m f = Inr y \<longleftrightarrow> (\<exists>x. m = Inr x \<and> f x = Inr y)"
  by (cases m) (simp_all add: bind_err_def)

lemma bind_err_Inl_iff:
  "bind_err m f = Inl e \<longleftrightarrow> m = Inl e \<or> (\<exists>x. m = Inr x \<and> f x = Inl e)"
  by (cases m) (simp_all add: bind_err_def)

lemma convert_line_Inr_iff:
  "convert_line r = Inr nr \<longleftrightarrow>
     (\<exists>d f. read_line r = Inr d \<and> flag_column (dots_columns (plus_columns d)) = Inr f
            \<and> numeric_columns f = Inr nr)"
  by (simp add: convert_line_def bind_err_Inr_iff)

lemma stages_Inr_iff:
  "(\<exists>df fdf. apply_err read_line rows = Inr df
        \<and> apply_err flag_column (map dots_columns (map plus_columns df)) = Inr fdf
        \<and> apply_err numeric_columns fdf = Inr ndf)
   \<longleftrightarrow> list_all2 (\<lambda>r nr. convert_line r = Inr nr) rows ndf"
proof -
  have eq: "(\<lambda>r nr. convert_line r = Inr nr) =
      (\<lambda>r d. read_line r = Inr d) OO
      ((\<lambda>d f. flag_column (dots_columns (plus_columns d)) = Inr f) OO
       (\<lambda>f nr. numeric_columns f = Inr nr))"
    by (auto simp: fun_eq_iff convert_line_Inr_iff OO_def)
  show ?thesis
    unfolding eq list.rel_compp apply_err_Inr_iff
    by (auto simp: OO_def list_all2_map1)
qed

lemma dex2ds_Inr_iff:
  "dex2ds file rows = Inr ds \<longleftrightarrow>
     (\<exists>ndf g d. list_all2 (\<lambda>r nr. convert_line r = Inr nr) rows ndf
        \<and> to_xarray ndf = Inr g \<and> file_date file = Inr d
        \<and> ds = expand_dims (g\<lparr>flag := where_else (\<lambda>v. \<not> isnull v) (Some 4) (flag g)\<rparr>) d)"
  unfolding stages_Inr_iff [symmetric]
  by (auto simp: dex2ds_def read_csv_def bind_err_Inr_iff)

section \<open>The substitutions\<close>

lemma replace_from_absent:
  "\<not> sublist old s \<Longrightarrow> replace_from old new s = s"
  by (induction s) (auto simp: sublist_Cons_right)

lemma replace_from_skip:
  "\<not> prefix old (c # cs) \<Longrightarrow> replace_from old new (c # cs) = c # replace_from old new cs"
  by simp

lemma replace_from_9plus_leftmost:
  "\<not> sublist ''9+'' a \<Longrightarrow>
     replace_from ''9+'' ''9.9'' (a @ ''9+'' @ b) = a @ ''9.9'' @ replace_from ''9+'' ''9.9'' b"
proof (induction a)
  case Nil
  show ?case by simp
next
  case (Cons c a)
  from Cons.prems have no_pre: "\<not> prefix ''9+'' (c # a)" and rest: "\<not> sublist ''9+'' a"
    by (simp_all add: sublist_Cons_right)
  have "\<not> prefix ''9+'' (c # (a @ ''9+'' @ b))"
    using no_pre by (cases a) auto
  then have "replace_from ''9+'' ''9.9'' (c # (a @ ''9+'' @ b))
      = c # replace_from ''9+'' ''9.9'' (a @ ''9+'' @ b)"
    by (rule replace_from_skip)
  with Cons.IH [OF rest] show ?case
    by (simp del: replace_from.simps)
qed

text \<open>
  Claim C3. In the columns \<open>CT\<close> and \<open>CA\<close>, the plus-substitution replaces \<open>9+\<close> by
  \<open>9.9\<close> in a string that contains it: the text before the leftmost occurrence stays,
  the occurrence becomes \<open>9.9\<close>, and the rest of the string is treated in the same way.
  Every other value, a string without \<open>9+\<close> or a value that is not a string, is returned
  unchanged.
\<close>

theorem strip_plus_substitution:
  "(\<not> sublist ''9+'' a \<longrightarrow>
      strip_plus (Str (a @ ''9+'' @ b)) = Str (a @ ''9.9'' @ str_replace ''9+'' ''9.9'' b))
   \<and> ((\<forall>s. x = Str s \<longrightarrow> \<not> sublist ''9+'' s) \<longrightarrow> strip_plus x = x)
   \<and> CT (plus_columns r) = strip_plus (CT r)
   \<and> CA (plus_columns r) = strip_plus (CA r)"
proof -
  have "strip_plus (Str (a @ ''9+'' @ b)) = Str (a @ ''9.9'' @ str_replace ''9+'' ''9.9'' b)"
    if "\<not> sublist ''9+'' a"
    using replace_from_9plus_leftmost [OF that, of b]
    by (simp add: strip_plus_def str_replace_def)
  moreover have "strip_plus x = x" if "\<forall>s. x = Str s \<longrightarrow> \<not> sublist ''9+'' s"
    using that by (cases x) (simp_all add: strip_plus_def str_replace_def replace_from_absent)
  ultimately show ?thesis
    by (simp add: plus_columns_def)
qed

theorem strip_plus_substitution_witness:
  "\<not> sublist ''9+'' ''1'' \<and> strip_plus (Str ''19+9+'') = Str ''19.99.9''
   \<and> \<not> sublist ''9+'' ''Fast-ice''
   \<and> strip_plus (Str ''Fast-ice'') = Str ''Fast-ice''"
  using strip_plus_substitution [of "''1''" "''9+''" "Str ''Fast-ice''"]
  by (simp add: sublist_Cons_right str_replace_def)

section \<open>Reading and flagging a row\<close>

lemma apply_err_fails_with:
  assumes "x \<in> set xs" and "f x = Inl e" and "\<And>y e'. f y = Inl e' \<Longrightarrow> e' = E"
  shows "apply_err f xs = Inl E"
proof -
  from assms(1,2) obtain e' where e': "apply_err f xs = Inl e'"
    using apply_err_fails [of x xs f e] by blast
  from apply_err_Inl [OF e'] assms(3) have "e' = E"
    by blast
  with e' show ?thesis by simp
qed

lemma list_all2_member_left:
  "list_all2 P xs ys \<Longrightarrow> x \<in> set xs \<Longrightarrow> \<exists>y \<in> set ys. P x y"
  by (induction rule: list_all2_induct) auto

lemma list_all2_member_right:
  "list_all2 P xs ys \<Longrightarrow> y \<in> set ys \<Longrightarrow> \<exists>x \<in> set xs. P x y"
  by (induction rule: list_all2_induct) auto

lemma map_of_types:
  "map_of types ''CT'' = Some str" "map_of types ''CA'' = Some str"
  "map_of types ''SA'' = Some str" "map_of types ''FA'' = Some str"
  "map_of types ''CB'' = Some str" "map_of types ''SB'' = Some str"
  "map_of types ''FB'' = Some str" "map_of types ''CC'' = Some float"
  "map_of types ''SC'' = Some float" "map_of types ''FC'' = Some float"
  by (simp_all add: types_def col_names_def col_types_def)

lemma read_col_str:
  "read_col ''CT'' tok = Inr (if tok \<in> set na_values then NaN else Str tok)"
  "read_col ''CA'' tok = Inr (if tok \<in> set na_values then NaN else Str tok)"
  "read_col ''SA'' tok = Inr (if tok \<in> set na_values then NaN else Str tok)"
  "read_col ''FA'' tok = Inr (if tok \<in> set na_values then NaN else Str tok)"
  "read_col ''CB'' tok = Inr (if tok \<in> set na_values then NaN else Str tok)"
  "read_col ''SB'' tok = Inr (if tok \<in> set na_values then NaN else Str tok)"
  "read_col ''FB'' tok = Inr (if tok \<in> set na_values then NaN else Str tok)"
  by (simp_all add: read_col_def map_of_types read_as_def)

lemma read_col_float:
  "read_col ''CC'' tok = read_as float tok"
  "read_col ''SC'' tok = read_as float tok"
  "read_col ''FC'' tok = read_as float tok"
  by (simp_all add: read_col_def map_of_types)


lemma read_line_Inr_iff:
  "read_line r = Inr d \<longleftrightarrow>
     (\<exists>cc sc fc. read_as float (CC r) = Inr cc \<and> read_as float (SC r) = Inr sc
        \<and> read_as float (FC r) = Inr fc
        \<and> d = \<lparr>lon = lon r, lat = lat r,
               CT = (if CT r \<in> set na_values then NaN else Str (CT r)),
               CA = (if CA r \<in> set na_values then NaN else Str (CA r)),
               SA = (if SA r \<in> set na_values then NaN else Str (SA r)),
               FA = (if FA r \<in> set na_values then NaN else Str (FA r)),
               CB = (if CB r \<in> set na_values then NaN else Str (CB r)),
               SB = (if SB r \<in> set na_values then NaN else Str (SB r)),
               FB = (if FB r \<in> set na_values then NaN else Str (FB r)),
               CC = cc, SC = sc, FC = fc\<rparr>)"
  unfolding read_line_def read_col_str read_col_float
  by (auto simp: bind_err_def split: sum.splits)



lemma num_flags_Inl: "num_flags x = Inl e \<Longrightarrow> e = KeyError"
  by (auto simp: num_flags_def split: cell.splits option.splits)

lemma flag_column_Inl: "flag_column r = Inl e \<Longrightarrow> e = KeyError"
  by (auto simp: flag_column_def bind_err_Inl_iff dest: num_flags_Inl)

lemma flag_column_Inl_iff:
  "(\<exists>e. flag_column r = Inl e) \<longleftrightarrow> (\<exists>e. num_flags (CT r) = Inl e)"
  by (auto simp: flag_column_def bind_err_Inl_iff)

lemma CT_substituted [simp]:
  "CT (dots_columns (plus_columns d)) = strip_plus (CT d)"
  by (simp add: dots_columns_def plus_columns_def)

text \<open>A row whose total concentration has no flag ends the conversion.\<close>

lemma dex2ds_no_flag:
  assumes r: "r \<in> set rows"
    and nf: "num_flags (strip_plus (if CT r \<in> set na_values then NaN else Str (CT r)))
               = Inl KeyError"
  shows "(\<exists>e. dex2ds file rows = Inl e)
         \<and> (\<forall>df. read_csv rows = Inr df \<longrightarrow> dex2ds file rows = Inl KeyError)"
proof -
  have "dex2ds file rows = Inl KeyError" if df: "read_csv rows = Inr df" for df
  proof -
    from df have "list_all2 (\<lambda>r d. read_line r = Inr d) rows df"
      by (simp add: read_csv_def apply_err_Inr_iff)
    with r obtain d where d: "d \<in> set df" "read_line r = Inr d"
      using list_all2_member_left by force
    from d(2) have "CT d = (if CT r \<in> set na_values then NaN else Str (CT r))"
      by (auto simp: read_line_Inr_iff)
    with nf have "flag_column (dots_columns (plus_columns d)) = Inl KeyError"
      by (simp add: flag_column_def bind_err_def)
    with d(1) have
      "apply_err flag_column (map dots_columns (map plus_columns df)) = Inl KeyError"
      by (intro apply_err_fails_with [where x = "dots_columns (plus_columns d)"])
         (auto dest: flag_column_Inl)
    with df show ?thesis
      by (simp add: dex2ds_def bind_err_def)
  qed
  moreover have "\<exists>e. dex2ds file rows = Inl e" if "read_csv rows = Inl e" for e
    using that by (simp add: dex2ds_def bind_err_def)
  ultimately show ?thesis
    by (cases "read_csv rows") auto
qed

section \<open>The dictionary of flags\<close>

lemma num_flags_Str:
  "num_flags (Str s) = (if s \<in> set spec_flag_codes then Inr (spec_flag s) else Inl KeyError)"
  by (simp add: num_flags_def conv_def spec_flag_codes_def spec_ice_codes_def spec_flag_def)

lemma num_flags_not_Str [simp]:
  "num_flags (Num x) = Inl KeyError" "num_flags NaN = Inl KeyError"
  by (simp_all add: num_flags_def)

lemma conv_keys: "dom (map_of conv) = set spec_flag_codes"
  by (simp add: dom_map_of_conv_image_fst conv_def spec_flag_codes_def spec_ice_codes_def)

lemma distinct_spec_flag_codes: "distinct spec_flag_codes"
  by (simp add: spec_flag_codes_def spec_ice_codes_def)

lemma card_conv_keys: "card (dom (map_of conv)) = 15"
proof -
  have "length spec_flag_codes = 15"
    by (simp add: spec_flag_codes_def spec_ice_codes_def)
  with distinct_card [OF distinct_spec_flag_codes] show ?thesis
    unfolding conv_keys by simp
qed

lemma num_flags_Inr_iff:
  "(\<exists>v. num_flags x = Inr v) \<longleftrightarrow> (\<exists>s \<in> set spec_flag_codes. x = Str s)"
  by (cases x) (auto simp: num_flags_Str)

lemma replace_from_9plus_sublist:
  "sublist ''9+'' s \<Longrightarrow> sublist ''9.9'' (replace_from ''9+'' ''9.9'' s)"
proof (induction s)
  case Nil
  then show ?case by simp
next
  case (Cons c s)
  show ?case
  proof (cases "prefix ''9+'' (c # s)")
    case True
    then have "prefix ''9.9'' (replace_from ''9+'' ''9.9'' (c # s))"
      by auto
    then show ?thesis
      by (meson prefix_imp_sublist)
  next
    case False
    with Cons.prems have "sublist ''9+'' s"
      unfolding sublist_Cons_right [of _ c s] by blast
    from Cons.IH [OF this] have "sublist ''9.9'' (c # replace_from ''9+'' ''9.9'' s)"
      unfolding sublist_Cons_right [of _ c] by blast
    with replace_from_skip [OF False] show ?thesis
      by simp
  qed
qed

lemma replace_from_9plus_length:
  "length s \<le> length (replace_from ''9+'' ''9.9'' s)"
proof (induction "length s" arbitrary: s rule: less_induct)
  case less
  show ?case
  proof (cases s)
    case Nil
    then show ?thesis by simp
  next
    case (Cons c cs)
    show ?thesis
    proof (cases "prefix ''9+'' (c # cs)")
      case True
      then obtain t where t: "cs = CHR ''+'' # t" and c: "c = CHR ''9''"
        by (cases cs) auto
      from less [of t] t Cons have "length t \<le> length (replace_from ''9+'' ''9.9'' t)"
        by simp
      with t c Cons show ?thesis by simp
    next
      case False
      from less [of cs] Cons have "length cs \<le> length (replace_from ''9+'' ''9.9'' cs)"
        by simp
      with replace_from_skip [OF False] Cons show ?thesis by simp
    qed
  qed
qed

lemma replace_from_9plus_is_99:
  assumes "replace_from ''9+'' ''9.9'' s = ''9.9''"
  shows "s = ''9+'' \<or> s = ''9.9''"
proof (cases "prefix ''9+'' s")
  case True
  then obtain t where t: "s = ''9+'' @ t"
    by (auto simp: prefix_def)
  with assms have "replace_from ''9+'' ''9.9'' t = []"
    by simp
  with replace_from_9plus_length [of t] have "t = []"
    by simp
  with t show ?thesis by simp
next
  case False
  show ?thesis
  proof (cases "sublist ''9+'' s")
    case no: False
    with assms show ?thesis
      by (simp add: replace_from_absent)
  next
    case True
    with False obtain c cs where s: "s = c # cs" and cs: "sublist ''9+'' cs"
      by (cases s) (auto simp: sublist_Cons_right)
    from False s have "replace_from ''9+'' ''9.9'' s = c # replace_from ''9+'' ''9.9'' cs"
      using replace_from_skip by blast
    with assms have r: "replace_from ''9+'' ''9.9'' cs = ''.9''"
      by simp
    from replace_from_9plus_sublist [OF cs] r have "sublist ''9.9'' ''.9''"
      by simp
    then show ?thesis
      by (simp add: sublist_Cons_right)
  qed
qed

lemma strip_plus_code:
  assumes "str_replace ''9+'' ''9.9'' t \<in> set spec_flag_codes"
  shows "t \<in> set spec_flag_codes"
proof (cases "sublist ''9+'' t")
  case False
  with assms show ?thesis
    by (simp add: str_replace_def replace_from_absent)
next
  case True
  from replace_from_9plus_sublist [OF this]
  have sub: "sublist ''9.9'' (replace_from ''9+'' ''9.9'' t)" .
  from assms have mem: "replace_from ''9+'' ''9.9'' t \<in> set spec_flag_codes"
    by (simp add: str_replace_def)
  have "\<forall>s \<in> set spec_flag_codes. sublist ''9.9'' s \<longrightarrow> s = ''9.9''"
    by (simp add: spec_flag_codes_def spec_ice_codes_def sublist_Cons_right)
  with mem sub have "replace_from ''9+'' ''9.9'' t = ''9.9''"
    by blast
  from replace_from_9plus_is_99 [OF this] show ?thesis
    by (auto simp: spec_flag_codes_def spec_ice_codes_def)
qed

lemma codes_not_na:
  "t \<in> set spec_flag_codes \<Longrightarrow> t \<notin> set na_values"
  by (auto simp: na_values_def spec_flag_codes_def spec_ice_codes_def)

lemma lookup_of_token:
  "bind_err (read_col ''CT'' t) (\<lambda>c. num_flags (strip_plus c)) =
     (if t \<in> set spec_flag_codes then Inr (spec_flag t) else Inl KeyError)"
proof (cases "t \<in> set spec_flag_codes")
  case True
  then have "t \<notin> set na_values"
    by (rule codes_not_na)
  then have "bind_err (read_col ''CT'' t) (\<lambda>c. num_flags (strip_plus c))
      = num_flags (strip_plus (Str t))"
    by (simp add: read_col_str bind_err_def)
  also have "\<forall>t \<in> set spec_flag_codes. num_flags (strip_plus (Str t)) = Inr (spec_flag t)"
    by (simp add: spec_flag_codes_def spec_ice_codes_def strip_plus_def str_replace_def
          num_flags_def conv_def spec_flag_def)
  with True have "num_flags (strip_plus (Str t)) = Inr (spec_flag t)"
    by blast
  finally show ?thesis
    using True by simp
next
  case False
  have "num_flags (strip_plus (Str t)) = Inl KeyError"
  proof (rule ccontr)
    assume "num_flags (strip_plus (Str t)) \<noteq> Inl KeyError"
    then have "\<exists>v. num_flags (strip_plus (Str t)) = Inr v"
      by (metis num_flags_Inl sum.exhaust_sel isl_def)
    then have "str_replace ''9+'' ''9.9'' t \<in> set spec_flag_codes"
      by (auto simp: num_flags_Inr_iff strip_plus_def)
    from strip_plus_code [OF this] False show False
      by simp
  qed
  with False show ?thesis
    by (simp add: read_col_str bind_err_def strip_plus_def)
qed

text \<open>
  Claim C1, as it is stated, counts fourteen codes. The dictionary \<open>conv\<close> has fifteen
  keys, and the set that the claim lists has fifteen elements.
\<close>

theorem conv_fourteen_counterexample:
  "card (dom (map_of conv)) = 15 \<and> card (set spec_flag_codes) = 15
   \<and> card (dom (map_of conv)) \<noteq> 14"
  using card_conv_keys by (simp add: conv_keys)

text \<open>
  Claim C1, amended. The code-to-flag lookup returns a flag for exactly the fifteen codes
  \<open>IF\<close>, \<open>missing\<close>, \<open>Fast-ice\<close>, \<open>1\<close> to \<open>9\<close>, \<open>9+\<close>, \<open>9.9\<close> and \<open>10\<close>:
  \<open>IF\<close> gives 1, \<open>missing\<close> gives 2, \<open>Fast-ice\<close> gives 3 and the others give 0; on
  every other value it raises \<open>KeyError\<close>. The same holds for a token of the \<open>CT\<close>
  column of a file, which reaches the lookup after the read and the plus-substitution.
  A row whose \<open>CT\<close> token is outside the fifteen codes ends the conversion of the file
  with an error, which is the \<open>KeyError\<close> of the lookup whenever the read succeeds.
\<close>

theorem num_flags_lookup:
  "(num_flags x = Inr v \<longleftrightarrow> (\<exists>s \<in> set spec_flag_codes. x = Str s \<and> v = spec_flag s))
   \<and> (num_flags x = Inl e \<longleftrightarrow> e = KeyError \<and> x \<notin> Str ` set spec_flag_codes)
   \<and> card {x. \<exists>v. num_flags x = Inr v} = 15
   \<and> length spec_flag_codes = 15
   \<and> bind_err (read_col ''CT'' t) (\<lambda>c. num_flags (strip_plus c)) =
       (if t \<in> set spec_flag_codes then Inr (spec_flag t) else Inl KeyError)
   \<and> (r \<in> set rows \<and> CT r \<notin> set spec_flag_codes
      \<longrightarrow> (\<exists>e. dex2ds file rows = Inl e)
          \<and> (\<forall>df. read_csv rows = Inr df \<longrightarrow> dex2ds file rows = Inl KeyError))"
proof -
  have 1: "num_flags x = Inr v \<longleftrightarrow> (\<exists>s \<in> set spec_flag_codes. x = Str s \<and> v = spec_flag s)"
    by (cases x) (auto simp: num_flags_Str)
  have 0: "num_flags x = Inl e \<longleftrightarrow> e = KeyError \<and> x \<notin> Str ` set spec_flag_codes"
    by (cases x) (auto simp: num_flags_Str)
  have "{x. \<exists>v. num_flags x = Inr v} = Str ` dom (map_of conv)"
    by (auto simp: num_flags_Inr_iff conv_keys)
  then have 2: "card {x. \<exists>v. num_flags x = Inr v} = 15"
    by (simp add: card_image inj_on_def card_conv_keys)
  have 3: "length spec_flag_codes = 15"
    by (simp add: spec_flag_codes_def spec_ice_codes_def)
  have 4: "(\<exists>e. dex2ds file rows = Inl e)
          \<and> (\<forall>df. read_csv rows = Inr df \<longrightarrow> dex2ds file rows = Inl KeyError)"
    if r: "r \<in> set rows" and t: "CT r \<notin> set spec_flag_codes"
  proof (rule dex2ds_no_flag [OF r])
    from lookup_of_token [of "CT r"] t
    show "num_flags (strip_plus (if CT r \<in> set na_values then NaN else Str (CT r)))
        = Inl KeyError"
      by (simp add: read_col_str bind_err_def)
  qed
  from 0 1 2 3 4 lookup_of_token [of t] show ?thesis
    by blast
qed

theorem num_flags_lookup_witness:
  "\<lparr>lon = 0, lat = 0, CT = ''ice'', CA = ''X'', SA = ''X'', FA = ''X'', CB = ''X'',
     SB = ''X'', FB = ''X'', CC = ''X'', SC = ''X'', FC = ''X''\<rparr>
     \<in> set [\<lparr>lon = 0, lat = 0, CT = ''ice'', CA = ''X'', SA = ''X'', FA = ''X'', CB = ''X'',
             SB = ''X'', FB = ''X'', CC = ''X'', SC = ''X'', FC = ''X''\<rparr>]
   \<and> ''ice'' \<notin> set spec_flag_codes
   \<and> dex2ds ''GEC_H_20190325.dex''
        [\<lparr>lon = 0, lat = 0, CT = ''ice'', CA = ''X'', SA = ''X'', FA = ''X'', CB = ''X'',
          SB = ''X'', FB = ''X'', CC = ''X'', SC = ''X'', FC = ''X''\<rparr>] = Inl KeyError
   \<and> num_flags (Str ''IF'') = Inr 1"
proof -
  have "\<exists>df. read_csv
      [\<lparr>lon = 0, lat = 0, CT = ''ice'', CA = ''X'', SA = ''X'', FA = ''X'', CB = ''X'',
        SB = ''X'', FB = ''X'', CC = ''X'', SC = ''X'', FC = ''X''\<rparr>] = Inr df"
    by (simp add: read_csv_def read_line_def read_col_str read_col_float read_as_def
          na_values_def bind_err_def)
  moreover have "''ice'' \<notin> set spec_flag_codes" "''IF'' \<in> set spec_flag_codes"
    by (simp_all add: spec_flag_codes_def spec_ice_codes_def)
  ultimately show ?thesis
    using num_flags_lookup [of "Str ''IF''" 1 KeyError "''ice''"
      "\<lparr>lon = 0, lat = 0, CT = ''ice'', CA = ''X'', SA = ''X'', FA = ''X'', CB = ''X'',
        SB = ''X'', FB = ''X'', CC = ''X'', SC = ''X'', FC = ''X''\<rparr>"
      "[\<lparr>lon = 0, lat = 0, CT = ''ice'', CA = ''X'', SA = ''X'', FA = ''X'', CB = ''X'',
         SB = ''X'', FB = ''X'', CC = ''X'', SC = ''X'', FC = ''X''\<rparr>]"
      "''GEC_H_20190325.dex''"]
    by (simp add: spec_flag_def)
qed

text \<open>
  Claim C9. The null sentinel \<open>X\<close> in the \<open>CT\<close> column is read as a missing value, which
  is not a string; the plus-substitution returns it unchanged and the code-to-flag lookup
  raises \<open>KeyError\<close> on it. So a file with a row whose \<open>CT\<close> is \<open>X\<close> yields no dataset:
  the conversion ends with an error, the \<open>KeyError\<close> of the lookup whenever the read
  succeeds.
\<close>

theorem null_total_concentration:
  "read_col ''CT'' ''X'' = Inr NaN \<and> strip_plus NaN = NaN \<and> num_flags NaN = Inl KeyError
   \<and> (r \<in> set rows \<and> CT r = ''X''
      \<longrightarrow> (\<exists>e. dex2ds file rows = Inl e)
          \<and> (\<forall>df. read_csv rows = Inr df \<longrightarrow> dex2ds file rows = Inl KeyError))"
proof -
  have X: "''X'' \<in> set na_values"
    by (simp add: na_values_def)
  have "(\<exists>e. dex2ds file rows = Inl e)
          \<and> (\<forall>df. read_csv rows = Inr df \<longrightarrow> dex2ds file rows = Inl KeyError)"
    if "r \<in> set rows" "CT r = ''X''"
    using that X by (intro dex2ds_no_flag [of r]) (simp_all add: strip_plus_def)
  with X show ?thesis
    by (simp add: read_col_str strip_plus_def)
qed

theorem null_total_concentration_witness:
  "CT \<lparr>lon = 0, lat = 0, CT = ''X'', CA = ''X'', SA = ''X'', FA = ''X'', CB = ''X'',
       SB = ''X'', FB = ''X'', CC = ''X'', SC = ''X'', FC = (''X'' :: string)\<rparr> = ''X''
   \<and> dex2ds ''GEC_H_20190325.dex''
        [\<lparr>lon = 0, lat = 0, CT = ''X'', CA = ''X'', SA = ''X'', FA = ''X'', CB = ''X'',
          SB = ''X'', FB = ''X'', CC = ''X'', SC = ''X'', FC = ''X''\<rparr>] = Inl KeyError"
proof -
  have "\<exists>df. read_csv
      [\<lparr>lon = 0, lat = 0, CT = ''X'', CA = ''X'', SA = ''X'', FA = ''X'', CB = ''X'',
        SB = ''X'', FB = ''X'', CC = ''X'', SC = ''X'', FC = ''X''\<rparr>] = Inr df"
    by (simp add: read_csv_def read_line_def read_col_str read_col_float read_as_def
          na_values_def bind_err_def)
  with null_total_concentration [of
      "\<lparr>lon = 0, lat = 0, CT = ''X'', CA = ''X'', SA = ''X'', FA = ''X'', CB = ''X'',
        SB = ''X'', FB = ''X'', CC = ''X'', SC = ''X'', FC = ''X''\<rparr>"
      "[\<lparr>lon = 0, lat = 0, CT = ''X'', CA = ''X'', SA = ''X'', FA = ''X'', CB = ''X'',
         SB = ''X'', FB = ''X'', CC = ''X'', SC = ''X'', FC = ''X''\<rparr>]"
      "''GEC_H_20190325.dex''"]
  show ?thesis
    by simp
qed

section \<open>One line of the file\<close>

lemma find_list_all2:
  assumes "list_all2 R xs ys" and "\<And>x y. R x y \<Longrightarrow> P x = Q y"
  shows "rel_option R (find P xs) (find Q ys)"
  using assms by (induction rule: list_all2_induct) auto

lemma map_list_all2:
  assumes "list_all2 R xs ys" and "\<And>x y. R x y \<Longrightarrow> f x = g y"
  shows "map f xs = map g ys"
  using assms by (induction rule: list_all2_induct) auto

lemma find_distinct_key:
  assumes "distinct (map key xs)" and "x \<in> set xs"
  shows "find (\<lambda>r. key r = key x) xs = Some x"
  using assms by (induction xs) (auto simp: image_iff)

lemma to_numeric_coerce_total: "\<exists>v. to_numeric errors_coerce c = Inr v"
  by (cases c) (auto simp: to_numeric_def split: option.splits)

lemma numeric_columns_total:
  "\<exists>nr. numeric_columns r = Inr nr"
proof -
  obtain ct ca sa fa cb sb fb cc sc fc where
    "to_numeric errors_coerce (CT r) = Inr ct" "to_numeric errors_coerce (CA r) = Inr ca"
    "to_numeric errors_coerce (SA r) = Inr sa" "to_numeric errors_coerce (FA r) = Inr fa"
    "to_numeric errors_coerce (CB r) = Inr cb" "to_numeric errors_coerce (SB r) = Inr sb"
    "to_numeric errors_coerce (FB r) = Inr fb" "to_numeric errors_coerce (CC r) = Inr cc"
    "to_numeric errors_coerce (SC r) = Inr sc" "to_numeric errors_coerce (FC r) = Inr fc"
    using to_numeric_coerce_total by meson
  then show ?thesis
    by (simp add: numeric_columns_def bind_err_def)
qed

lemma numeric_columns_Inr:
  assumes "numeric_columns r = Inr nr"
  shows "lon nr = lon r" "lat nr = lat r" "flag nr = flag r"
    "to_numeric errors_coerce (CT r) = Inr (CT nr)"
    "to_numeric errors_coerce (CA r) = Inr (CA nr)"
    "to_numeric errors_coerce (SA r) = Inr (SA nr)"
    "to_numeric errors_coerce (FA r) = Inr (FA nr)"
    "to_numeric errors_coerce (CB r) = Inr (CB nr)"
    "to_numeric errors_coerce (SB r) = Inr (SB nr)"
    "to_numeric errors_coerce (FB r) = Inr (FB nr)"
    "to_numeric errors_coerce (CC r) = Inr (CC nr)"
    "to_numeric errors_coerce (SC r) = Inr (SC nr)"
    "to_numeric errors_coerce (FC r) = Inr (FC nr)"
  using assms by (auto simp: numeric_columns_def bind_err_Inr_iff)

lemma flag_column_Inr:
  assumes "flag_column r = Inr fr"
  shows "num_flags (CT r) = Inr (flag fr)"
    "lon fr = lon r" "lat fr = lat r" "CT fr = CT r" "CA fr = CA r" "SA fr = SA r"
    "FA fr = FA r" "CB fr = CB r" "SB fr = SB r" "FB fr = FB r" "CC fr = CC r"
    "SC fr = SC r" "FC fr = FC r"
  using assms by (auto simp: flag_column_def bind_err_Inr_iff)

lemma substituted_columns [simp]:
  "lon (dots_columns (plus_columns d)) = lon d"
  "lat (dots_columns (plus_columns d)) = lat d"
  "CA (dots_columns (plus_columns d)) = strip_plus (CA d)"
  "SA (dots_columns (plus_columns d)) = strip_dots (SA d)"
  "FA (dots_columns (plus_columns d)) = FA d"
  "CB (dots_columns (plus_columns d)) = CB d"
  "SB (dots_columns (plus_columns d)) = strip_dots (SB d)"
  "FB (dots_columns (plus_columns d)) = FB d"
  "CC (dots_columns (plus_columns d)) = CC d"
  "SC (dots_columns (plus_columns d)) = strip_dots (SC d)"
  "FC (dots_columns (plus_columns d)) = FC d"
  by (simp_all add: dots_columns_def plus_columns_def)

lemma read_as_str: "read_as str t = Inr (if t \<in> set na_values then NaN else Str t)"
  by (simp add: read_as_def)

text \<open>What a converted line holds, column by column, in terms of the tokens of the line.\<close>

lemma convert_line_Inr:
  assumes "convert_line r = Inr nr"
  shows "lon nr = lon r" "lat nr = lat r"
    "bind_err (read_col ''CT'' (CT r)) (\<lambda>c. num_flags (strip_plus c)) = Inr (flag nr)"
    "bind_err (read_as str (CT r)) (\<lambda>c. to_numeric errors_coerce (strip_plus c)) = Inr (CT nr)"
    "bind_err (read_as str (CA r)) (\<lambda>c. to_numeric errors_coerce (strip_plus c)) = Inr (CA nr)"
    "bind_err (read_as str (SA r)) (\<lambda>c. to_numeric errors_coerce (strip_dots c)) = Inr (SA nr)"
    "bind_err (read_as str (FA r)) (to_numeric errors_coerce) = Inr (FA nr)"
    "bind_err (read_as str (CB r)) (to_numeric errors_coerce) = Inr (CB nr)"
    "bind_err (read_as str (SB r)) (\<lambda>c. to_numeric errors_coerce (strip_dots c)) = Inr (SB nr)"
    "bind_err (read_as str (FB r)) (to_numeric errors_coerce) = Inr (FB nr)"
    "bind_err (read_as float (CC r)) (to_numeric errors_coerce) = Inr (CC nr)"
    "bind_err (read_as float (SC r)) (\<lambda>c. to_numeric errors_coerce (strip_dots c)) = Inr (SC nr)"
    "bind_err (read_as float (FC r)) (to_numeric errors_coerce) = Inr (FC nr)"
proof -
  from assms obtain d f where d: "read_line r = Inr d"
    and f: "flag_column (dots_columns (plus_columns d)) = Inr f"
    and n: "numeric_columns f = Inr nr"
    by (auto simp: convert_line_Inr_iff)
  from d obtain cc sc fc where fl: "read_as float (CC r) = Inr cc"
      "read_as float (SC r) = Inr sc" "read_as float (FC r) = Inr fc"
    and d': "d = \<lparr>lon = lon r, lat = lat r,
               CT = (if CT r \<in> set na_values then NaN else Str (CT r)),
               CA = (if CA r \<in> set na_values then NaN else Str (CA r)),
               SA = (if SA r \<in> set na_values then NaN else Str (SA r)),
               FA = (if FA r \<in> set na_values then NaN else Str (FA r)),
               CB = (if CB r \<in> set na_values then NaN else Str (CB r)),
               SB = (if SB r \<in> set na_values then NaN else Str (SB r)),
               FB = (if FB r \<in> set na_values then NaN else Str (FB r)),
               CC = cc, SC = sc, FC = fc\<rparr>"
    unfolding read_line_Inr_iff by blast
  note F = flag_column_Inr [OF f] and N = numeric_columns_Inr [OF n]
  show "lon nr = lon r" "lat nr = lat r"
    using F N d' by simp_all
  show "bind_err (read_col ''CT'' (CT r)) (\<lambda>c. num_flags (strip_plus c)) = Inr (flag nr)"
    using F(1) N(3) d' by (simp add: read_col_str bind_err_def)
  show "bind_err (read_as str (CT r)) (\<lambda>c. to_numeric errors_coerce (strip_plus c)) = Inr (CT nr)"
    using N(4) F(4) d' by (simp add: read_as_str bind_err_def)
  show "bind_err (read_as str (CA r)) (\<lambda>c. to_numeric errors_coerce (strip_plus c)) = Inr (CA nr)"
    using N(5) F(5) d' by (simp add: read_as_str bind_err_def)
  show "bind_err (read_as str (SA r)) (\<lambda>c. to_numeric errors_coerce (strip_dots c)) = Inr (SA nr)"
    using N(6) F(6) d' by (simp add: read_as_str bind_err_def)
  show "bind_err (read_as str (FA r)) (to_numeric errors_coerce) = Inr (FA nr)"
    using N(7) F(7) d' by (simp add: read_as_str bind_err_def)
  show "bind_err (read_as str (CB r)) (to_numeric errors_coerce) = Inr (CB nr)"
    using N(8) F(8) d' by (simp add: read_as_str bind_err_def)
  show "bind_err (read_as str (SB r)) (\<lambda>c. to_numeric errors_coerce (strip_dots c)) = Inr (SB nr)"
    using N(9) F(9) d' by (simp add: read_as_str bind_err_def)
  show "bind_err (read_as str (FB r)) (to_numeric errors_coerce) = Inr (FB nr)"
    using N(10) F(10) d' by (simp add: read_as_str bind_err_def)
  show "bind_err (read_as float (CC r)) (to_numeric errors_coerce) = Inr (CC nr)"
    using N(11) F(11) d' fl by (simp add: bind_err_def)
  show "bind_err (read_as float (SC r)) (\<lambda>c. to_numeric errors_coerce (strip_dots c)) = Inr (SC nr)"
    using N(12) F(12) d' fl by (simp add: bind_err_def)
  show "bind_err (read_as float (FC r)) (to_numeric errors_coerce) = Inr (FC nr)"
    using N(13) F(13) d' fl by (simp add: bind_err_def)
qed

text \<open>A line converts exactly when its total concentration is one of the codes and its
  third-class tokens are missing values or numbers.\<close>

lemma convert_line_succeeds_iff:
  "(\<exists>nr. convert_line r = Inr nr) \<longleftrightarrow>
     CT r \<in> set spec_flag_codes
     \<and> (\<exists>c. read_as float (CC r) = Inr c) \<and> (\<exists>c. read_as float (SC r) = Inr c)
     \<and> (\<exists>c. read_as float (FC r) = Inr c)"
proof
  assume "\<exists>nr. convert_line r = Inr nr"
  then obtain nr where nr: "convert_line r = Inr nr" ..
  from convert_line_Inr(3) [OF nr] have "CT r \<in> set spec_flag_codes"
    by (simp add: lookup_of_token split: if_splits)
  moreover from nr have "\<exists>d. read_line r = Inr d"
    by (auto simp: convert_line_Inr_iff)
  ultimately show "CT r \<in> set spec_flag_codes
     \<and> (\<exists>c. read_as float (CC r) = Inr c) \<and> (\<exists>c. read_as float (SC r) = Inr c)
     \<and> (\<exists>c. read_as float (FC r) = Inr c)"
    by (auto simp: read_line_Inr_iff)
next
  assume a: "CT r \<in> set spec_flag_codes
     \<and> (\<exists>c. read_as float (CC r) = Inr c) \<and> (\<exists>c. read_as float (SC r) = Inr c)
     \<and> (\<exists>c. read_as float (FC r) = Inr c)"
  then obtain d where d: "read_line r = Inr d"
    unfolding read_line_Inr_iff by blast
  then have "CT d = (if CT r \<in> set na_values then NaN else Str (CT r))"
    by (auto simp: read_line_Inr_iff)
  with a lookup_of_token [of "CT r"] have "num_flags (strip_plus (CT d)) = Inr (spec_flag (CT r))"
    by (simp add: read_col_str bind_err_def)
  then obtain f where f: "flag_column (dots_columns (plus_columns d)) = Inr f"
    by (simp add: flag_column_def bind_err_def)
  from numeric_columns_total [of f] d f show "\<exists>nr. convert_line r = Inr nr"
    by (auto simp: convert_line_Inr_iff)
qed

section \<open>The grid\<close>

lemma reindex_nth:
  "i < length lons \<Longrightarrow> j < length lats \<Longrightarrow>
     reindex df lons lats col ! i ! j =
       (case find (\<lambda>r. lon r = lons ! i \<and> lat r = lats ! j) df of
          None \<Rightarrow> None
        | Some r \<Rightarrow> col r)"
  by (simp add: reindex_def)

lemma to_xarray_Inr:
  assumes "to_xarray df = Inr g"
  shows "distinct (map (\<lambda>r. (lon r, lat r)) df)"
    "lon g = sort (remdups (map lon df))" "lat g = sort (remdups (map lat df))"
    "CT g = reindex df (lon g) (lat g) CT" "CA g = reindex df (lon g) (lat g) CA"
    "SA g = reindex df (lon g) (lat g) SA" "FA g = reindex df (lon g) (lat g) FA"
    "CB g = reindex df (lon g) (lat g) CB" "SB g = reindex df (lon g) (lat g) SB"
    "FB g = reindex df (lon g) (lat g) FB" "CC g = reindex df (lon g) (lat g) CC"
    "SC g = reindex df (lon g) (lat g) SC" "FC g = reindex df (lon g) (lat g) FC"
    "flag g = reindex df (lon g) (lat g) (\<lambda>r. Some (flag r))"
  using assms by (auto simp: to_xarray_def Let_def split: if_splits)

lemma to_xarray_Inr_iff:
  "(\<exists>g. to_xarray df = Inr g) \<longleftrightarrow> distinct (map (\<lambda>r. (lon r, lat r)) df)"
  by (simp add: to_xarray_def Let_def)

lemma where_else_nth:
  "i < length a \<Longrightarrow> j < length (a ! i) \<Longrightarrow>
     where_else cond other a ! i ! j = (if cond (a ! i ! j) then a ! i ! j else other)"
  by (simp add: where_else_def)

lemma reindex_length:
  "length (reindex df lons lats col) = length lons"
  "i < length lons \<Longrightarrow> length (reindex df lons lats col ! i) = length lats"
  by (simp_all add: reindex_def)

text \<open>The dataset that a successful conversion returns: its coordinates, its time and the
  content of every cell of the grid.\<close>

lemma dex2ds_coords:
  assumes "dex2ds file rows = Inr ds"
  shows "lon ds = sort (remdups (map lon rows))" "lat ds = sort (remdups (map lat rows))"
    "distinct (map (\<lambda>r. (lon r, lat r)) rows)"
    "\<exists>d. file_date file = Inr d \<and> time ds = [d]"
proof -
  from assms obtain ndf g d where
    conv: "list_all2 (\<lambda>r nr. convert_line r = Inr nr) rows ndf"
    and g: "to_xarray ndf = Inr g" and d: "file_date file = Inr d"
    and ds: "ds = expand_dims (g\<lparr>flag := where_else (\<lambda>v. \<not> isnull v) (Some 4) (flag g)\<rparr>) d"
    unfolding dex2ds_Inr_iff by blast
  have lo: "map lon rows = map lon ndf" and la: "map lat rows = map lat ndf"
    and key: "map (\<lambda>r. (lon r, lat r)) rows = map (\<lambda>r. (lon r, lat r)) ndf"
    by (rule map_list_all2 [OF conv], simp add: convert_line_Inr(1,2))+
  from to_xarray_Inr(1-3) [OF g] lo la key ds
  show "lon ds = sort (remdups (map lon rows))" "lat ds = sort (remdups (map lat rows))"
    "distinct (map (\<lambda>r. (lon r, lat r)) rows)"
    by (simp_all add: expand_dims_def)
  from d ds show "\<exists>d. file_date file = Inr d \<and> time ds = [d]"
    by (simp add: expand_dims_def)
qed

lemma dex2ds_cell:
  assumes "dex2ds file rows = Inr ds" and i: "i < length (lon ds)" and j: "j < length (lat ds)"
  shows "case find (\<lambda>r. lon r = lon ds ! i \<and> lat r = lat ds ! j) rows of
           None \<Rightarrow>
             flag ds ! 0 ! i ! j = Some 4
             \<and> CT ds ! 0 ! i ! j = None \<and> CA ds ! 0 ! i ! j = None \<and> SA ds ! 0 ! i ! j = None
             \<and> FA ds ! 0 ! i ! j = None \<and> CB ds ! 0 ! i ! j = None \<and> SB ds ! 0 ! i ! j = None
             \<and> FB ds ! 0 ! i ! j = None \<and> CC ds ! 0 ! i ! j = None \<and> SC ds ! 0 ! i ! j = None
             \<and> FC ds ! 0 ! i ! j = None
         | Some r \<Rightarrow>
             (\<exists>nr. convert_line r = Inr nr
               \<and> flag ds ! 0 ! i ! j = Some (flag nr)
               \<and> CT ds ! 0 ! i ! j = CT nr \<and> CA ds ! 0 ! i ! j = CA nr
               \<and> SA ds ! 0 ! i ! j = SA nr \<and> FA ds ! 0 ! i ! j = FA nr
               \<and> CB ds ! 0 ! i ! j = CB nr \<and> SB ds ! 0 ! i ! j = SB nr
               \<and> FB ds ! 0 ! i ! j = FB nr \<and> CC ds ! 0 ! i ! j = CC nr
               \<and> SC ds ! 0 ! i ! j = SC nr \<and> FC ds ! 0 ! i ! j = FC nr)"
proof -
  from assms obtain ndf g d where
    conv: "list_all2 (\<lambda>r nr. convert_line r = Inr nr) rows ndf"
    and g: "to_xarray ndf = Inr g" and d: "file_date file = Inr d"
    and ds: "ds = expand_dims (g\<lparr>flag := where_else (\<lambda>v. \<not> isnull v) (Some 4) (flag g)\<rparr>) d"
    unfolding dex2ds_Inr_iff by blast
  note G = to_xarray_Inr [OF g]
  from i j ds have i': "i < length (lon g)" and j': "j < length (lat g)"
    by (simp_all add: expand_dims_def)
  let ?P = "\<lambda>r. lon r = lon ds ! i \<and> lat r = lat ds ! j"
  let ?Q = "\<lambda>r. lon r = lon g ! i \<and> lat r = lat g ! j"
  have rel: "rel_option (\<lambda>r nr. convert_line r = Inr nr) (find ?P rows) (find ?Q ndf)"
    by (rule find_list_all2 [OF conv]) (simp add: ds expand_dims_def convert_line_Inr(1,2))
  have cells:
    "flag ds ! 0 ! i ! j = (case find ?Q ndf of None \<Rightarrow> Some 4 | Some r \<Rightarrow> Some (flag r))"
    "CT ds ! 0 ! i ! j = (case find ?Q ndf of None \<Rightarrow> None | Some r \<Rightarrow> CT r)"
    "CA ds ! 0 ! i ! j = (case find ?Q ndf of None \<Rightarrow> None | Some r \<Rightarrow> CA r)"
    "SA ds ! 0 ! i ! j = (case find ?Q ndf of None \<Rightarrow> None | Some r \<Rightarrow> SA r)"
    "FA ds ! 0 ! i ! j = (case find ?Q ndf of None \<Rightarrow> None | Some r \<Rightarrow> FA r)"
    "CB ds ! 0 ! i ! j = (case find ?Q ndf of None \<Rightarrow> None | Some r \<Rightarrow> CB r)"
    "SB ds ! 0 ! i ! j = (case find ?Q ndf of None \<Rightarrow> None | Some r \<Rightarrow> SB r)"
    "FB ds ! 0 ! i ! j = (case find ?Q ndf of None \<Rightarrow> None | Some r \<Rightarrow> FB r)"
    "CC ds ! 0 ! i ! j = (case find ?Q ndf of None \<Rightarrow> None | Some r \<Rightarrow> CC r)"
    "SC ds ! 0 ! i ! j = (case find ?Q ndf of None \<Rightarrow> None | Some r \<Rightarrow> SC r)"
    "FC ds ! 0 ! i ! j = (case find ?Q ndf of None \<Rightarrow> None | Some r \<Rightarrow> FC r)"
    using i' j' G(4-14)
    by (simp_all add: ds expand_dims_def where_else_nth reindex_length reindex_nth isnull_def
          split: option.splits)
  show ?thesis
  proof (cases "find ?P rows")
    case None
    with rel have "find ?Q ndf = None"
      by simp
    with None cells show ?thesis
      by simp
  next
    case (Some r)
    with rel obtain nr where "find ?Q ndf = Some nr" "convert_line r = Inr nr"
      by (auto simp: option_rel_Some1)
    with Some cells show ?thesis
      by simp
  qed
qed

lemma dex2ds_row_index:
  assumes ok: "dex2ds file rows = Inr ds" and r: "r \<in> set rows"
  shows "\<exists>i j. i < length (lon ds) \<and> j < length (lat ds)
           \<and> lon ds ! i = lon r \<and> lat ds ! j = lat r
           \<and> find (\<lambda>r'. lon r' = lon ds ! i \<and> lat r' = lat ds ! j) rows = Some r"
proof -
  note C = dex2ds_coords [OF ok]
  from r C(1) have "lon r \<in> set (lon ds)"
    by simp
  then obtain i where i: "i < length (lon ds)" "lon ds ! i = lon r"
    by (auto simp: in_set_conv_nth)
  from r C(2) have "lat r \<in> set (lat ds)"
    by simp
  then obtain j where j: "j < length (lat ds)" "lat ds ! j = lat r"
    by (auto simp: in_set_conv_nth)
  from find_distinct_key [OF C(3) r]
  have "find (\<lambda>r'. lon r' = lon r \<and> lat r' = lat r) rows = Some r"
    by simp
  with i j show ?thesis
    by (intro exI [of _ i] exI [of _ j]) simp
qed

lemma dex2ds_succeeds:
  assumes "\<forall>r \<in> set rows. \<exists>nr. convert_line r = Inr nr"
    and "distinct (map (\<lambda>r. (lon r, lat r)) rows)"
    and "file_date file = Inr d"
  shows "\<exists>ds. dex2ds file rows = Inr ds"
proof -
  from assms(1) have "\<exists>ndf. list_all2 (\<lambda>r nr. convert_line r = Inr nr) rows ndf"
  proof (induction rows)
    case Nil
    show ?case by simp
  next
    case (Cons r rows)
    then obtain ndf nr where "list_all2 (\<lambda>r nr. convert_line r = Inr nr) rows ndf"
      "convert_line r = Inr nr"
      by auto
    then have "list_all2 (\<lambda>r nr. convert_line r = Inr nr) (r # rows) (nr # ndf)"
      by simp
    then show ?case ..
  qed
  then obtain ndf where conv: "list_all2 (\<lambda>r nr. convert_line r = Inr nr) rows ndf" ..
  have "map (\<lambda>r. (lon r, lat r)) rows = map (\<lambda>r. (lon r, lat r)) ndf"
    by (rule map_list_all2 [OF conv]) (simp add: convert_line_Inr(1,2))
  with assms(2) obtain g where "to_xarray ndf = Inr g"
    using to_xarray_Inr_iff [of ndf] by auto
  with conv assms(3) show ?thesis
    unfolding dex2ds_Inr_iff by blast
qed

section \<open>The flags of the grid\<close>

lemma spec_flag_range: "spec_flag s \<in> {0, 1, 2, 3}"
  by (simp add: spec_flag_def)

lemmas token_eval =
  spec_flag_codes_def spec_ice_codes_def read_as_def na_values_def to_float_def
  parse_unsigned_def is_digit_def nat_of_digits_def digit_val_def

lemmas date_eval =
  file_date_def item0_def digits8_def Timestamp_def days_in_month_def leap_year_def
  bind_err_def is_digit_def nat_of_digits_def digit_val_def

text \<open>
  Claim C4. In the dataset that the conversion returns, the grid is the product of the
  sorted distinct longitudes and latitudes of the rows. A cell of the grid at which the
  file has no row holds the flag 4 (land); a cell at which the file has a row holds the
  flag that the code-to-flag lookup gives for that row's \<open>CT\<close>, one of 0, 1, 2 and 3.
\<close>

theorem land_fill:
  assumes "dex2ds file rows = Inr ds" and "i < length (lon ds)" and "j < length (lat ds)"
  shows "lon ds = sort (remdups (map lon rows)) \<and> lat ds = sort (remdups (map lat rows))
    \<and> (case find (\<lambda>r. lon r = lon ds ! i \<and> lat r = lat ds ! j) rows of
          None \<Rightarrow> flag ds ! 0 ! i ! j = Some 4
        | Some r \<Rightarrow>
            bind_err (read_col ''CT'' (CT r)) (\<lambda>c. num_flags (strip_plus c))
              = Inr (spec_flag (CT r))
            \<and> flag ds ! 0 ! i ! j = Some (spec_flag (CT r))
            \<and> spec_flag (CT r) \<in> {0, 1, 2, 3})"
proof -
  let ?found = "find (\<lambda>r. lon r = lon ds ! i \<and> lat r = lat ds ! j) rows"
  note cell = dex2ds_cell [OF assms]
  have "case ?found of
          None \<Rightarrow> flag ds ! 0 ! i ! j = Some 4
        | Some r \<Rightarrow>
            bind_err (read_col ''CT'' (CT r)) (\<lambda>c. num_flags (strip_plus c))
              = Inr (spec_flag (CT r))
            \<and> flag ds ! 0 ! i ! j = Some (spec_flag (CT r))
            \<and> spec_flag (CT r) \<in> {0, 1, 2, 3}"
  proof (cases ?found)
    case None
    with cell show ?thesis by simp
  next
    case (Some r)
    with cell obtain nr where nr: "convert_line r = Inr nr"
      and fl: "flag ds ! 0 ! i ! j = Some (flag nr)"
      by auto
    from convert_line_Inr(3) [OF nr]
    have "bind_err (read_col ''CT'' (CT r)) (\<lambda>c. num_flags (strip_plus c)) = Inr (flag nr)" .
    moreover from this have "flag nr = spec_flag (CT r)"
      by (simp add: lookup_of_token split: if_splits)
    ultimately show ?thesis
      using Some fl spec_flag_range [of "CT r"] by simp
  qed
  with dex2ds_coords(1,2) [OF assms(1)] show ?thesis
    by simp
qed

theorem land_fill_witness:
  "\<exists>ds. dex2ds ''GEC_H_20190325.dex''
           [line 0 0 ''9+'' ''9+'' ''4.'' ''5'' ''X'' ''X'' ''X'' ''X'' ''X'' ''X'',
            line 1 1 ''missing'' ''X'' ''X'' ''X'' ''X'' ''X'' ''X'' ''X'' ''X'' ''X''] = Inr ds
        \<and> lon ds = [0, 1] \<and> lat ds = [0, 1]
        \<and> flag ds ! 0 ! 0 ! 1 = Some 4 \<and> flag ds ! 0 ! 1 ! 1 = Some 2"
proof -
  let ?rows = "[line 0 0 ''9+'' ''9+'' ''4.'' ''5'' ''X'' ''X'' ''X'' ''X'' ''X'' ''X'',
            line 1 1 ''missing'' ''X'' ''X'' ''X'' ''X'' ''X'' ''X'' ''X'' ''X'' ''X'']"
  have "\<exists>ds. dex2ds ''GEC_H_20190325.dex'' ?rows = Inr ds"
  proof (rule dex2ds_succeeds)
    show "\<forall>r \<in> set ?rows. \<exists>nr. convert_line r = Inr nr"
      by (simp add: convert_line_succeeds_iff line_def token_eval)
    show "distinct (map (\<lambda>r. (lon r, lat r)) ?rows)"
      by (simp add: line_def)
    show "file_date ''GEC_H_20190325.dex'' = Inr \<lparr>year = 2019, month = 3, day = 25\<rparr>"
      by (simp add: date_eval)
  qed
  then obtain ds where ds: "dex2ds ''GEC_H_20190325.dex'' ?rows = Inr ds" ..
  from dex2ds_coords(1,2) [OF ds] have co: "lon ds = [0, 1]" "lat ds = [0, 1]"
    by (simp_all add: line_def)
  from land_fill [OF ds, of 0 1] land_fill [OF ds, of 1 1] co
  have "flag ds ! 0 ! 0 ! 1 = Some 4 \<and> flag ds ! 0 ! 1 ! 1 = Some 2"
    by (simp add: line_def spec_flag_def)
  with ds co show ?thesis
    by blast
qed

section \<open>The columns of a converted line\<close>

lemma dex2ds_at_row:
  assumes ok: "dex2ds file rows = Inr ds" and r: "r \<in> set rows"
  shows "\<exists>i j nr. i < length (lon ds) \<and> j < length (lat ds)
           \<and> lon ds ! i = lon r \<and> lat ds ! j = lat r \<and> convert_line r = Inr nr
           \<and> flag ds ! 0 ! i ! j = Some (flag nr)
           \<and> CT ds ! 0 ! i ! j = CT nr \<and> CA ds ! 0 ! i ! j = CA nr
           \<and> SA ds ! 0 ! i ! j = SA nr \<and> FA ds ! 0 ! i ! j = FA nr
           \<and> CB ds ! 0 ! i ! j = CB nr \<and> SB ds ! 0 ! i ! j = SB nr
           \<and> FB ds ! 0 ! i ! j = FB nr \<and> CC ds ! 0 ! i ! j = CC nr
           \<and> SC ds ! 0 ! i ! j = SC nr \<and> FC ds ! 0 ! i ! j = FC nr"
proof -
  from dex2ds_row_index [OF ok r] obtain i j where
    ij: "i < length (lon ds)" "j < length (lat ds)" "lon ds ! i = lon r" "lat ds ! j = lat r"
    and f: "find (\<lambda>r'. lon r' = lon ds ! i \<and> lat r' = lat ds ! j) rows = Some r"
    by blast
  from dex2ds_cell [OF ok ij(1,2)] f ij show ?thesis
    by (intro exI [of _ i] exI [of _ j]) auto
qed

subsection \<open>Digits and stage codes with a dot\<close>

lemma is_digit_not_sign:
  "is_digit d \<Longrightarrow> d \<noteq> CHR ''.'' \<and> d \<noteq> CHR ''-'' \<and> d \<noteq> CHR ''+''"
  by (auto simp: is_digit_def)

lemma is_digit_zero: "is_digit CHR ''0''"
  by (simp add: is_digit_def)


lemma strip_dots_stage_code:
  assumes "is_digit d"
  shows "strip_dots (Str [d, CHR ''.'']) = Str [d, CHR ''0'']"
    and "strip_dots (Str [d, CHR ''0'']) = Str [d, CHR ''0'']"
  using is_digit_not_sign [OF assms]
  by (auto simp: strip_dots_def str_replace_def)

lemma to_float_digit_zero:
  assumes "is_digit d"
  shows "to_float [d, CHR ''0''] = Some (10 * of_nat (digit_val d))"
  using assms is_digit_not_sign [OF assms]
  by (simp add: to_float_def parse_unsigned_def is_digit_zero nat_of_digits_def)
     (simp add: digit_val_def)


lemma stage_code_not_na: "[d, CHR ''.''] \<notin> set na_values"
  by (simp add: na_values_def)

lemma stage_code_as_str:
  assumes "is_digit d"
  shows "bind_err (read_as str [d, CHR ''.'']) (\<lambda>c. to_numeric errors_coerce (strip_dots c))
    = Inr (Some (10 * of_nat (digit_val d)))"
  using stage_code_not_na [of d]
  by (simp add: read_as_def bind_err_def strip_dots_stage_code [OF assms] to_numeric_def
        to_float_digit_zero [OF assms])


text \<open>
  Claim C2 holds for the columns \<open>SA\<close> and \<open>SB\<close> and fails for \<open>SC\<close>. On a file whose
  line has the stage code \<open>4.\<close> in all three columns, the dataset holds 40 for \<open>SA\<close> and
  \<open>SB\<close> and 4 for \<open>SC\<close>: the column \<open>SC\<close> is read as a float, so its cell is the number 4
  before the dot-substitution runs, and the substitution leaves a number as it is.
\<close>

theorem stage_code_third_class:
  "dex2ds ''GEC_H_20190325.dex''
     [line 0 0 ''9'' ''6'' ''4.'' ''5'' ''3'' ''4.'' ''3'' ''1'' ''4.'' ''2'']
   = Inr \<lparr>lon = [0], lat = [0],
          CT = [[[Some 9]]], CA = [[[Some 6]]], SA = [[[Some 40]]], FA = [[[Some 5]]],
          CB = [[[Some 3]]], SB = [[[Some 40]]], FB = [[[Some 3]]],
          CC = [[[Some 1]]], SC = [[[Some 4]]], FC = [[[Some 2]]],
          flag = [[[Some 0]]], time = [\<lparr>year = 2019, month = 3, day = 25\<rparr>]\<rparr>"
  by (simp add: dex2ds_def line_def read_csv_def read_line_def read_col_def types_def
        col_names_def col_types_def read_as_def na_values_def bind_err_def to_float_def
        parse_unsigned_def is_digit_def nat_of_digits_def digit_val_def plus_columns_def
        dots_columns_def strip_plus_def strip_dots_def str_replace_def flag_column_def
        num_flags_def conv_def numeric_columns_def to_numeric_def to_xarray_def reindex_def
        where_else_def isnull_def file_date_def item0_def digits8_def Timestamp_def
        days_in_month_def leap_year_def expand_dims_def Let_def)



section \<open>The third-class columns\<close>





section \<open>A file of three lines\<close>

lemma read_as_float_ok:
  "(\<exists>c. read_as float t = Inr c) \<longleftrightarrow> t \<in> set na_values \<or> to_float t \<noteq> None"
  by (auto simp: read_as_def split: option.splits)

lemma spec_ice_codes_flag:
  "s \<in> set spec_ice_codes \<Longrightarrow> s \<in> set spec_flag_codes \<and> spec_flag s = 0"
  by (auto simp: spec_flag_codes_def spec_ice_codes_def spec_flag_def)

lemma plus_code_value:
  "bind_err (read_as str ''9+'') (\<lambda>c. to_numeric errors_coerce (strip_plus c))
     = Inr (Some (99 / 10))"
  by (simp add: read_as_def na_values_def bind_err_def strip_plus_def str_replace_def
        to_numeric_def to_float_def parse_unsigned_def is_digit_def nat_of_digits_def
        digit_val_def)

lemma dex2ds_flag_at_row:
  assumes ok: "dex2ds file rows = Inr ds" and r: "r \<in> set rows"
  shows "\<exists>i j. i < length (lon ds) \<and> j < length (lat ds)
           \<and> lon ds ! i = lon r \<and> lat ds ! j = lat r
           \<and> flag ds ! 0 ! i ! j = Some (spec_flag (CT r))
           \<and> Inr (CT ds ! 0 ! i ! j)
               = bind_err (read_as str (CT r)) (\<lambda>c. to_numeric errors_coerce (strip_plus c))
           \<and> Inr (CA ds ! 0 ! i ! j)
               = bind_err (read_as str (CA r)) (\<lambda>c. to_numeric errors_coerce (strip_plus c))
           \<and> Inr (SA ds ! 0 ! i ! j)
               = bind_err (read_as str (SA r)) (\<lambda>c. to_numeric errors_coerce (strip_dots c))
           \<and> Inr (SB ds ! 0 ! i ! j)
               = bind_err (read_as str (SB r)) (\<lambda>c. to_numeric errors_coerce (strip_dots c))"
proof -
  from dex2ds_at_row [OF ok r] obtain i j nr where
    ij: "i < length (lon ds)" "j < length (lat ds)" "lon ds ! i = lon r" "lat ds ! j = lat r"
    and nr: "convert_line r = Inr nr"
    and c: "flag ds ! 0 ! i ! j = Some (flag nr)" "CT ds ! 0 ! i ! j = CT nr"
      "CA ds ! 0 ! i ! j = CA nr" "SA ds ! 0 ! i ! j = SA nr" "SB ds ! 0 ! i ! j = SB nr"
    by blast
  from convert_line_Inr(3) [OF nr] have "flag nr = spec_flag (CT r)"
    by (simp add: lookup_of_token split: if_splits)
  with ij c convert_line_Inr(4,5,6,9) [OF nr] show ?thesis
    by (intro exI [of _ i] exI [of _ j]) simp
qed

text \<open>
  Claim C6, as it is stated, fails on the following file of three lines. One line has
  \<open>9+\<close> as its total concentration and as its second-class concentration, one has the
  stage code \<open>4.\<close>, and one has \<open>missing\<close> in \<open>CT\<close>. The three points share no longitude
  and no latitude, so the grid has nine points, six of them with the flag 4; and the
  \<open>9+\<close> of the column \<open>CB\<close>, which the plus-substitution does not visit, is a missing
  value in the dataset, not 9.9.
\<close>

theorem three_lines_counterexample:
  "dex2ds ''GEC_H_20190325.dex''
     [line 0 0 ''9+'' ''5'' ''4'' ''5'' ''9+'' ''1'' ''3'' ''X'' ''X'' ''X'',
      line 1 1 ''9'' ''9'' ''4.'' ''5'' ''X'' ''X'' ''X'' ''X'' ''X'' ''X'',
      line 2 2 ''missing'' ''X'' ''X'' ''X'' ''X'' ''X'' ''X'' ''X'' ''X'' ''X'']
   = Inr \<lparr>lon = [0, 1, 2], lat = [0, 1, 2],
          CT = [[[Some (99 / 10), None, None], [None, Some 9, None], [None, None, None]]],
          CA = [[[Some 5, None, None], [None, Some 9, None], [None, None, None]]],
          SA = [[[Some 4, None, None], [None, Some 40, None], [None, None, None]]],
          FA = [[[Some 5, None, None], [None, Some 5, None], [None, None, None]]],
          CB = [[[None, None, None], [None, None, None], [None, None, None]]],
          SB = [[[Some 1, None, None], [None, None, None], [None, None, None]]],
          FB = [[[Some 3, None, None], [None, None, None], [None, None, None]]],
          CC = [[[None, None, None], [None, None, None], [None, None, None]]],
          SC = [[[None, None, None], [None, None, None], [None, None, None]]],
          FC = [[[None, None, None], [None, None, None], [None, None, None]]],
          flag = [[[Some 0, Some 4, Some 4], [Some 4, Some 0, Some 4],
                   [Some 4, Some 4, Some 2]]],
          time = [\<lparr>year = 2019, month = 3, day = 25\<rparr>]\<rparr>
   \<and> length (lon (projr (dex2ds ''GEC_H_20190325.dex''
     [line 0 0 ''9+'' ''5'' ''4'' ''5'' ''9+'' ''1'' ''3'' ''X'' ''X'' ''X'',
      line 1 1 ''9'' ''9'' ''4.'' ''5'' ''X'' ''X'' ''X'' ''X'' ''X'' ''X'',
      line 2 2 ''missing'' ''X'' ''X'' ''X'' ''X'' ''X'' ''X'' ''X'' ''X'' ''X''])))
     * length (lat (projr (dex2ds ''GEC_H_20190325.dex''
     [line 0 0 ''9+'' ''5'' ''4'' ''5'' ''9+'' ''1'' ''3'' ''X'' ''X'' ''X'',
      line 1 1 ''9'' ''9'' ''4.'' ''5'' ''X'' ''X'' ''X'' ''X'' ''X'' ''X'',
      line 2 2 ''missing'' ''X'' ''X'' ''X'' ''X'' ''X'' ''X'' ''X'' ''X'' ''X'']))) = 9
   \<and> CB (projr (dex2ds ''GEC_H_20190325.dex''
     [line 0 0 ''9+'' ''5'' ''4'' ''5'' ''9+'' ''1'' ''3'' ''X'' ''X'' ''X'',
      line 1 1 ''9'' ''9'' ''4.'' ''5'' ''X'' ''X'' ''X'' ''X'' ''X'' ''X'',
      line 2 2 ''missing'' ''X'' ''X'' ''X'' ''X'' ''X'' ''X'' ''X'' ''X'' ''X''])) ! 0 ! 0 ! 0 = None"
proof -
  have "dex2ds ''GEC_H_20190325.dex''
     [line 0 0 ''9+'' ''5'' ''4'' ''5'' ''9+'' ''1'' ''3'' ''X'' ''X'' ''X'',
      line 1 1 ''9'' ''9'' ''4.'' ''5'' ''X'' ''X'' ''X'' ''X'' ''X'' ''X'',
      line 2 2 ''missing'' ''X'' ''X'' ''X'' ''X'' ''X'' ''X'' ''X'' ''X'' ''X'']
   = Inr \<lparr>lon = [0, 1, 2], lat = [0, 1, 2],
          CT = [[[Some (99 / 10), None, None], [None, Some 9, None], [None, None, None]]],
          CA = [[[Some 5, None, None], [None, Some 9, None], [None, None, None]]],
          SA = [[[Some 4, None, None], [None, Some 40, None], [None, None, None]]],
          FA = [[[Some 5, None, None], [None, Some 5, None], [None, None, None]]],
          CB = [[[None, None, None], [None, None, None], [None, None, None]]],
          SB = [[[Some 1, None, None], [None, None, None], [None, None, None]]],
          FB = [[[Some 3, None, None], [None, None, None], [None, None, None]]],
          CC = [[[None, None, None], [None, None, None], [None, None, None]]],
          SC = [[[None, None, None], [None, None, None], [None, None, None]]],
          FC = [[[None, None, None], [None, None, None], [None, None, None]]],
          flag = [[[Some 0, Some 4, Some 4], [Some 4, Some 0, Some 4],
                   [Some 4, Some 4, Some 2]]],
          time = [\<lparr>year = 2019, month = 3, day = 25\<rparr>]\<rparr>"
    by (simp add: dex2ds_def line_def read_csv_def read_line_def read_col_def types_def
        col_names_def col_types_def read_as_def na_values_def bind_err_def to_float_def
        parse_unsigned_def is_digit_def nat_of_digits_def digit_val_def plus_columns_def
        dots_columns_def strip_plus_def strip_dots_def str_replace_def flag_column_def
        num_flags_def conv_def numeric_columns_def to_numeric_def to_xarray_def reindex_def
        where_else_def isnull_def file_date_def item0_def digits8_def Timestamp_def
        days_in_month_def leap_year_def expand_dims_def Let_def)
  then show ?thesis
    by simp
qed

text \<open>
  Claim C6, amended. Take a file of three lines at distinct points that share their
  latitude or share their longitude, a file name that holds a date, and third-class
  tokens that are missing values or numbers. If one line has \<open>9+\<close> in \<open>CT\<close>, or has \<open>9+\<close>
  in \<open>CA\<close> and an ice code in \<open>CT\<close>, one line has a stage code with a dot in \<open>SA\<close> or \<open>SB\<close>
  and an ice code in \<open>CT\<close>, and one line has \<open>missing\<close> in \<open>CT\<close>, then the conversion
  returns a grid of three points in which the \<open>9+\<close> cell holds 9.9, the stage code holds
  ten times its digit, and the flags of the three lines are 0, 0 and 2.
\<close>

theorem three_lines:
  assumes pts: "distinct [(lon r1, lat r1), (lon r2, lat r2), (lon r3, lat r3)]"
    and aligned: "(lat r1 = lat r2 \<and> lat r2 = lat r3) \<or> (lon r1 = lon r2 \<and> lon r2 = lon r3)"
    and date: "file_date file = Inr d"
    and third: "\<forall>r \<in> {r1, r2, r3}. \<forall>t \<in> {CC r, SC r, FC r}.
                  t \<in> set na_values \<or> to_float t \<noteq> None"
    and plus: "CT r1 = ''9+'' \<or> (CA r1 = ''9+'' \<and> CT r1 \<in> set spec_ice_codes)"
    and dot: "is_digit c" "SA r2 = [c, CHR ''.''] \<or> SB r2 = [c, CHR ''.'']"
      "CT r2 \<in> set spec_ice_codes"
    and missing: "CT r3 = ''missing''"
  shows "\<exists>ds i1 j1 i2 j2 i3 j3.
      dex2ds file [r1, r2, r3] = Inr ds \<and> time ds = [d]
      \<and> length (lon ds) * length (lat ds) = 3
      \<and> i1 < length (lon ds) \<and> j1 < length (lat ds)
      \<and> lon ds ! i1 = lon r1 \<and> lat ds ! j1 = lat r1
      \<and> i2 < length (lon ds) \<and> j2 < length (lat ds)
      \<and> lon ds ! i2 = lon r2 \<and> lat ds ! j2 = lat r2
      \<and> i3 < length (lon ds) \<and> j3 < length (lat ds)
      \<and> lon ds ! i3 = lon r3 \<and> lat ds ! j3 = lat r3
      \<and> flag ds ! 0 ! i1 ! j1 = Some 0
      \<and> (CT r1 = ''9+'' \<longrightarrow> CT ds ! 0 ! i1 ! j1 = Some (99 / 10))
      \<and> (CA r1 = ''9+'' \<longrightarrow> CA ds ! 0 ! i1 ! j1 = Some (99 / 10))
      \<and> flag ds ! 0 ! i2 ! j2 = Some 0
      \<and> (SA r2 = [c, CHR ''.''] \<longrightarrow> SA ds ! 0 ! i2 ! j2 = Some (10 * of_nat (digit_val c)))
      \<and> (SB r2 = [c, CHR ''.''] \<longrightarrow> SB ds ! 0 ! i2 ! j2 = Some (10 * of_nat (digit_val c)))
      \<and> flag ds ! 0 ! i3 ! j3 = Some 2"
proof -
  let ?rows = "[r1, r2, r3]"
  have ct1: "CT r1 \<in> set spec_ice_codes"
    using plus by (auto simp: spec_ice_codes_def)
  have ct3: "CT r3 \<in> set spec_flag_codes" "spec_flag (CT r3) = 2"
    using missing by (simp_all add: spec_flag_codes_def spec_flag_def)
  have "\<forall>r \<in> set ?rows. \<exists>nr. convert_line r = Inr nr"
    using third spec_ice_codes_flag [OF ct1] spec_ice_codes_flag [OF dot(3)] ct3(1)
    by (simp add: convert_line_succeeds_iff read_as_float_ok)
  moreover have "distinct (map (\<lambda>r. (lon r, lat r)) ?rows)"
    using pts by simp
  ultimately obtain ds where ds: "dex2ds file ?rows = Inr ds"
    using dex2ds_succeeds [OF _ _ date] by blast
  note C = dex2ds_coords [OF ds]
  from C(4) date have time: "time ds = [d]"
    by auto
  have size: "length (lon ds) * length (lat ds) = 3"
  proof -
    from aligned show ?thesis
    proof
      assume a: "lat r1 = lat r2 \<and> lat r2 = lat r3"
      with pts have "distinct [lon r1, lon r2, lon r3]"
        by auto
      then have "length (lon ds) = 3"
        unfolding C(1) by (simp add: distinct_remdups_id)
      moreover from a have "length (lat ds) = 1"
        unfolding C(2) by simp
      ultimately show ?thesis by simp
    next
      assume a: "lon r1 = lon r2 \<and> lon r2 = lon r3"
      with pts have "distinct [lat r1, lat r2, lat r3]"
        by auto
      then have "length (lat ds) = 3"
        unfolding C(2) by (simp add: distinct_remdups_id)
      moreover from a have "length (lon ds) = 1"
        unfolding C(1) by simp
      ultimately show ?thesis by simp
    qed
  qed
  from dex2ds_flag_at_row [OF ds, of r1] obtain i1 j1 where
    p1: "i1 < length (lon ds)" "j1 < length (lat ds)" "lon ds ! i1 = lon r1"
      "lat ds ! j1 = lat r1"
    and f1: "flag ds ! 0 ! i1 ! j1 = Some (spec_flag (CT r1))"
    and v1: "Inr (CT ds ! 0 ! i1 ! j1)
               = bind_err (read_as str (CT r1)) (\<lambda>c. to_numeric errors_coerce (strip_plus c))"
      "Inr (CA ds ! 0 ! i1 ! j1)
               = bind_err (read_as str (CA r1)) (\<lambda>c. to_numeric errors_coerce (strip_plus c))"
    by auto
  from dex2ds_flag_at_row [OF ds, of r2] obtain i2 j2 where
    p2: "i2 < length (lon ds)" "j2 < length (lat ds)" "lon ds ! i2 = lon r2"
      "lat ds ! j2 = lat r2"
    and f2: "flag ds ! 0 ! i2 ! j2 = Some (spec_flag (CT r2))"
    and v2: "Inr (SA ds ! 0 ! i2 ! j2)
               = bind_err (read_as str (SA r2)) (\<lambda>c. to_numeric errors_coerce (strip_dots c))"
      "Inr (SB ds ! 0 ! i2 ! j2)
               = bind_err (read_as str (SB r2)) (\<lambda>c. to_numeric errors_coerce (strip_dots c))"
    by auto
  from dex2ds_flag_at_row [OF ds, of r3] obtain i3 j3 where
    p3: "i3 < length (lon ds)" "j3 < length (lat ds)" "lon ds ! i3 = lon r3"
      "lat ds ! j3 = lat r3"
    and f3: "flag ds ! 0 ! i3 ! j3 = Some (spec_flag (CT r3))"
    by auto
  have fl: "flag ds ! 0 ! i1 ! j1 = Some 0" "flag ds ! 0 ! i2 ! j2 = Some 0"
    "flag ds ! 0 ! i3 ! j3 = Some 2"
    using f1 f2 f3 spec_ice_codes_flag [OF ct1] spec_ice_codes_flag [OF dot(3)] ct3(2)
    by simp_all
  have plus_ct: "CT ds ! 0 ! i1 ! j1 = Some (99 / 10)" if "CT r1 = ''9+''"
    using v1(1) that plus_code_value by simp
  have plus_ca: "CA ds ! 0 ! i1 ! j1 = Some (99 / 10)" if "CA r1 = ''9+''"
    using v1(2) that plus_code_value by simp
  have dot_sa: "SA ds ! 0 ! i2 ! j2 = Some (10 * of_nat (digit_val c))"
    if "SA r2 = [c, CHR ''.'']"
    using v2(1) that stage_code_as_str [OF dot(1)] by simp
  have dot_sb: "SB ds ! 0 ! i2 ! j2 = Some (10 * of_nat (digit_val c))"
    if "SB r2 = [c, CHR ''.'']"
    using v2(2) that stage_code_as_str [OF dot(1)] by simp
  show ?thesis
    apply (rule exI [of _ ds])
    apply (rule exI [of _ i1], rule exI [of _ j1])
    apply (rule exI [of _ i2], rule exI [of _ j2])
    apply (rule exI [of _ i3], rule exI [of _ j3])
    using ds time size p1 p2 p3 fl plus_ct plus_ca dot_sa dot_sb
    apply (intro conjI impI)
    apply assumption+
    done
qed

theorem three_lines_witness:
  "dex2ds ''GEC_H_20190325.dex''
     [line 0 0 ''9+'' ''9+'' ''4'' ''5'' ''X'' ''X'' ''X'' ''X'' ''X'' ''X'',
      line 1 0 ''9'' ''6'' ''4.'' ''5'' ''3'' ''1.'' ''3'' ''X'' ''X'' ''X'',
      line 2 0 ''missing'' ''X'' ''X'' ''X'' ''X'' ''X'' ''X'' ''X'' ''X'' ''X'']
   = Inr \<lparr>lon = [0, 1, 2], lat = [0],
          CT = [[[Some (99 / 10)], [Some 9], [None]]],
          CA = [[[Some (99 / 10)], [Some 6], [None]]],
          SA = [[[Some 4], [Some 40], [None]]],
          FA = [[[Some 5], [Some 5], [None]]],
          CB = [[[None], [Some 3], [None]]],
          SB = [[[None], [Some 10], [None]]],
          FB = [[[None], [Some 3], [None]]],
          CC = [[[None], [None], [None]]],
          SC = [[[None], [None], [None]]],
          FC = [[[None], [None], [None]]],
          flag = [[[Some 0], [Some 0], [Some 2]]],
          time = [\<lparr>year = 2019, month = 3, day = 25\<rparr>]\<rparr>
   \<and> (\<exists>ds i1 j1 i2 j2 i3 j3.
        dex2ds ''GEC_H_20190325.dex''
          [line 0 0 ''9+'' ''9+'' ''4'' ''5'' ''X'' ''X'' ''X'' ''X'' ''X'' ''X'',
           line 1 0 ''9'' ''6'' ''4.'' ''5'' ''3'' ''1.'' ''3'' ''X'' ''X'' ''X'',
           line 2 0 ''missing'' ''X'' ''X'' ''X'' ''X'' ''X'' ''X'' ''X'' ''X'' ''X'']
          = Inr ds
        \<and> time ds = [\<lparr>year = 2019, month = 3, day = 25\<rparr>]
        \<and> length (lon ds) * length (lat ds) = 3
        \<and> flag ds ! 0 ! i1 ! j1 = Some 0 \<and> CT ds ! 0 ! i1 ! j1 = Some (99 / 10)
        \<and> CA ds ! 0 ! i1 ! j1 = Some (99 / 10)
        \<and> flag ds ! 0 ! i2 ! j2 = Some 0 \<and> SA ds ! 0 ! i2 ! j2 = Some 40
        \<and> flag ds ! 0 ! i3 ! j3 = Some 2)"
proof -
  let ?r1 = "line 0 0 ''9+'' ''9+'' ''4'' ''5'' ''X'' ''X'' ''X'' ''X'' ''X'' ''X''"
  let ?r2 = "line 1 0 ''9'' ''6'' ''4.'' ''5'' ''3'' ''1.'' ''3'' ''X'' ''X'' ''X''"
  let ?r3 = "line 2 0 ''missing'' ''X'' ''X'' ''X'' ''X'' ''X'' ''X'' ''X'' ''X'' ''X''"
  have pts: "distinct [(lon ?r1, lat ?r1), (lon ?r2, lat ?r2), (lon ?r3, lat ?r3)]"
    and aligned: "(lat ?r1 = lat ?r2 \<and> lat ?r2 = lat ?r3)
        \<or> (lon ?r1 = lon ?r2 \<and> lon ?r2 = lon ?r3)"
    by (simp_all add: line_def)
  have date: "file_date ''GEC_H_20190325.dex'' = Inr \<lparr>year = 2019, month = 3, day = 25\<rparr>"
    by (simp add: date_eval)
  have third: "\<forall>r \<in> {?r1, ?r2, ?r3}. \<forall>t \<in> {CC r, SC r, FC r}.
                  t \<in> set na_values \<or> to_float t \<noteq> None"
    by (simp add: line_def na_values_def)
  have plus: "CT ?r1 = ''9+'' \<or> (CA ?r1 = ''9+'' \<and> CT ?r1 \<in> set spec_ice_codes)"
    by (simp add: line_def)
  have dot: "is_digit CHR ''4''"
    "SA ?r2 = [CHR ''4'', CHR ''.''] \<or> SB ?r2 = [CHR ''4'', CHR ''.'']"
    "CT ?r2 \<in> set spec_ice_codes"
    by (simp_all add: line_def is_digit_def spec_ice_codes_def)
  have missing: "CT ?r3 = ''missing''"
    by (simp add: line_def)
  have val: "digit_val CHR ''4'' = 4"
    by (simp add: digit_val_def)
  from three_lines [OF pts aligned date third plus dot missing]
  have general: "\<exists>ds i1 j1 i2 j2 i3 j3.
        dex2ds ''GEC_H_20190325.dex'' [?r1, ?r2, ?r3] = Inr ds
        \<and> time ds = [\<lparr>year = 2019, month = 3, day = 25\<rparr>]
        \<and> length (lon ds) * length (lat ds) = 3
        \<and> flag ds ! 0 ! i1 ! j1 = Some 0 \<and> CT ds ! 0 ! i1 ! j1 = Some (99 / 10)
        \<and> CA ds ! 0 ! i1 ! j1 = Some (99 / 10)
        \<and> flag ds ! 0 ! i2 ! j2 = Some 0 \<and> SA ds ! 0 ! i2 ! j2 = Some 40
        \<and> flag ds ! 0 ! i3 ! j3 = Some 2"
    unfolding val by (simp add: line_def) blast
  have "dex2ds ''GEC_H_20190325.dex'' [?r1, ?r2, ?r3]
   = Inr \<lparr>lon = [0, 1, 2], lat = [0],
          CT = [[[Some (99 / 10)], [Some 9], [None]]],
          CA = [[[Some (99 / 10)], [Some 6], [None]]],
          SA = [[[Some 4], [Some 40], [None]]],
          FA = [[[Some 5], [Some 5], [None]]],
          CB = [[[None], [Some 3], [None]]],
          SB = [[[None], [Some 10], [None]]],
          FB = [[[None], [Some 3], [None]]],
          CC = [[[None], [None], [None]]],
          SC = [[[None], [None], [None]]],
          FC = [[[None], [None], [None]]],
          flag = [[[Some 0], [Some 0], [Some 2]]],
          time = [\<lparr>year = 2019, month = 3, day = 25\<rparr>]\<rparr>"
    by (simp add: dex2ds_def line_def read_csv_def read_line_def read_col_def types_def
        col_names_def col_types_def read_as_def na_values_def bind_err_def to_float_def
        parse_unsigned_def is_digit_def nat_of_digits_def digit_val_def plus_columns_def
        dots_columns_def strip_plus_def strip_dots_def str_replace_def flag_column_def
        num_flags_def conv_def numeric_columns_def to_numeric_def to_xarray_def reindex_def
        where_else_def isnull_def file_date_def item0_def digits8_def Timestamp_def
        days_in_month_def leap_year_def expand_dims_def Let_def)
  from this general show ?thesis
    by (rule conjI)
qed

section \<open>The time coordinate\<close>

subsection \<open>The first run of eight digits\<close>







subsection \<open>The date of eight digits\<close>








section \<open>The outputs of the main program\<close>








end
